theory Spec2Isabelle
  imports Complex_Main
begin

section \<open>JavaScript numbers\<close>

text \<open>
  The module \<open>src/pdf.js\<close> turns one rendered DOM element into a paginated PDF. It
  extends the jsPDF prototype with five plugin methods (\<open>output2\<close>, \<open>addBlank\<close>,
  \<open>toCanvas\<close>, \<open>addHeader\<close>, \<open>addFooter\<close>) and exports \<open>outputPdf\<close>, which
  dispatches to \<open>outputWithAdaptive\<close> or \<open>outputWithFixedSize\<close>.

  All its arithmetic is on JavaScript numbers, which are IEEE 754 doubles. A number is
  modelled as a real (\<open>Num\<close>), \<open>Infinity\<close>, \<open>-Infinity\<close> or \<open>NaN\<close>, and every
  operation rounds its exact result to the nearest double, ties to the even significand,
  as the standard prescribes. The one thing left out is the sign of zero: \<open>-0\<close> is
  read as \<open>0\<close>. The two differ only as divisors, and the divisors of the module are
  \<open>canvas.width\<close>, \<open>offsetWidth\<close> and the option \<open>contentHeight\<close>.
\<close>

datatype jsnum = Num real | Infinity | NegInfinity | NaN

text \<open>
  \<open>expo x\<close> is the binary exponent of a positive real: \<open>2 ^ expo x \<le> x < 2 ^ (expo x + 1)\<close>.
\<close>

function expo :: "real \<Rightarrow> int" where
  "expo x = (if x \<le> 0 then 0
             else if 2 \<le> x then expo (x / 2) + 1
             else if x < 1 then expo (2 * x) - 1
             else 0)"
  by pat_completeness auto
termination
proof (relation "measure (\<lambda>x. nat \<bar>\<lfloor>log 2 x\<rfloor>\<bar>)")
  show "wf (measure (\<lambda>x. nat \<bar>\<lfloor>log 2 x\<rfloor>\<bar>))" by simp
next
  fix x :: real
  assume "\<not> x \<le> 0" and "2 \<le> x"
  then have "log 2 (x / 2) = log 2 x - 1"
    by (simp add: log_divide)
  then have f: "\<lfloor>log 2 (x / 2)\<rfloor> = \<lfloor>log 2 x\<rfloor> - 1"
    by simp
  have "1 \<le> log 2 x" using \<open>2 \<le> x\<close> by (simp add: le_log_iff)
  then have "1 \<le> \<lfloor>log 2 x\<rfloor>" by linarith
  with f have "nat \<bar>\<lfloor>log 2 (x / 2)\<rfloor>\<bar> < nat \<bar>\<lfloor>log 2 x\<rfloor>\<bar>"
    by linarith
  then show "(x / 2, x) \<in> measure (\<lambda>x. nat \<bar>\<lfloor>log 2 x\<rfloor>\<bar>)"
    by (simp only: in_measure)
next
  fix x :: real
  assume "\<not> x \<le> 0" and "\<not> 2 \<le> x" and "x < 1"
  then have "log 2 (2 * x) = log 2 x + 1"
    by (simp add: log_mult)
  then have f: "\<lfloor>log 2 (2 * x)\<rfloor> = \<lfloor>log 2 x\<rfloor> + 1"
    by simp
  have "log 2 x < 0" using \<open>x < 1\<close> \<open>\<not> x \<le> 0\<close> by simp
  then have "\<lfloor>log 2 x\<rfloor> \<le> - 1" by linarith
  with f have "nat \<bar>\<lfloor>log 2 (2 * x)\<rfloor>\<bar> < nat \<bar>\<lfloor>log 2 x\<rfloor>\<bar>"
    by linarith
  then show "(2 * x, x) \<in> measure (\<lambda>x. nat \<bar>\<lfloor>log 2 x\<rfloor>\<bar>)"
    by (simp only: in_measure)
qed

declare expo.simps [simp del]

text \<open>
  The doubles around a real \<open>x\<close> other than zero are the multiples of \<open>ulp x\<close>: a
  significand of 53 bits, and the fixed spacing \<open>2 ^ -1074\<close> of the subnormal numbers
  below \<open>2 ^ -1022\<close>.
\<close>

definition ulp :: "real \<Rightarrow> real" where
  "ulp x = 2 powi (max (expo \<bar>x\<bar>) (- 1022) - 52)"

text \<open>The nearest integer, the even one of the two when they are equally near.\<close>

definition rne :: "real \<Rightarrow> int" where
  "rne y = (let n = \<lfloor>y\<rfloor>; r = y - of_int n
            in if r < 1 / 2 then n else if 1 / 2 < r then n + 1
               else if even n then n else n + 1)"

text \<open>
  \<open>fl x\<close> is the double that an operation with the exact result \<open>x\<close> returns, and the
  double that a decimal literal \<open>x\<close> of the source denotes: the nearest multiple of
  \<open>ulp x\<close>, or an infinity when that is \<open>2 ^ 1024\<close> or more in magnitude.
\<close>

definition fl :: "real \<Rightarrow> jsnum" where
  "fl x = (if x = 0 then Num 0
           else let y = of_int (rne (x / ulp x)) * ulp x
                in if 2 ^ 1024 \<le> \<bar>y\<bar> then (if 0 < x then Infinity else NegInfinity)
                   else Num y)"

text \<open>
  The operators \<open>+\<close>, \<open>-\<close>, \<open>*\<close>, \<open>/\<close>, \<open><=\<close> and \<open><\<close> of JavaScript on numbers. A
  comparison with \<open>NaN\<close> is false.
\<close>

instantiation jsnum :: "{uminus, plus, minus, times, inverse, ord}"
begin

fun uminus_jsnum :: "jsnum \<Rightarrow> jsnum" where
  "- Num a = Num (- a)"
| "- Infinity = NegInfinity"
| "- NegInfinity = Infinity"
| "- NaN = NaN"

fun plus_jsnum :: "jsnum \<Rightarrow> jsnum \<Rightarrow> jsnum" where
  "Num a + Num b = fl (a + b)"
| "Num a + Infinity = Infinity"
| "Num a + NegInfinity = NegInfinity"
| "Infinity + Num b = Infinity"
| "Infinity + Infinity = Infinity"
| "Infinity + NegInfinity = NaN"
| "NegInfinity + Num b = NegInfinity"
| "NegInfinity + Infinity = NaN"
| "NegInfinity + NegInfinity = NegInfinity"
| "NaN + y = NaN"
| "x + NaN = NaN"

definition minus_jsnum :: "jsnum \<Rightarrow> jsnum \<Rightarrow> jsnum" where
  "minus_jsnum x y = x + (- y)"

fun times_jsnum :: "jsnum \<Rightarrow> jsnum \<Rightarrow> jsnum" where
  "Num a * Num b = fl (a * b)"
| "Num a * Infinity = (if a = 0 then NaN else if 0 < a then Infinity else NegInfinity)"
| "Num a * NegInfinity = (if a = 0 then NaN else if 0 < a then NegInfinity else Infinity)"
| "Infinity * Num b = (if b = 0 then NaN else if 0 < b then Infinity else NegInfinity)"
| "NegInfinity * Num b = (if b = 0 then NaN else if 0 < b then NegInfinity else Infinity)"
| "Infinity * Infinity = Infinity"
| "Infinity * NegInfinity = NegInfinity"
| "NegInfinity * Infinity = NegInfinity"
| "NegInfinity * NegInfinity = Infinity"
| "NaN * y = NaN"
| "x * NaN = NaN"

fun divide_jsnum :: "jsnum \<Rightarrow> jsnum \<Rightarrow> jsnum" where
  "divide_jsnum (Num a) (Num b) =
     (if b = 0 then (if a = 0 then NaN else if 0 < a then Infinity else NegInfinity)
      else fl (a / b))"
| "divide_jsnum (Num a) Infinity = Num 0"
| "divide_jsnum (Num a) NegInfinity = Num 0"
| "divide_jsnum Infinity (Num b) = (if 0 \<le> b then Infinity else NegInfinity)"
| "divide_jsnum NegInfinity (Num b) = (if 0 \<le> b then NegInfinity else Infinity)"
| "divide_jsnum Infinity Infinity = NaN"
| "divide_jsnum Infinity NegInfinity = NaN"
| "divide_jsnum NegInfinity Infinity = NaN"
| "divide_jsnum NegInfinity NegInfinity = NaN"
| "divide_jsnum NaN y = NaN"
| "divide_jsnum x NaN = NaN"

definition inverse_jsnum :: "jsnum \<Rightarrow> jsnum" where
  "inverse_jsnum x = divide (Num 1) x"

fun less_eq_jsnum :: "jsnum \<Rightarrow> jsnum \<Rightarrow> bool" where
  "Num a \<le> Num b = (a \<le> b)"
| "Num a \<le> Infinity = True"
| "Num a \<le> NegInfinity = False"
| "Infinity \<le> Num b = False"
| "Infinity \<le> Infinity = True"
| "Infinity \<le> NegInfinity = False"
| "NegInfinity \<le> Num b = True"
| "NegInfinity \<le> Infinity = True"
| "NegInfinity \<le> NegInfinity = True"
| "NaN \<le> y = False"
| "x \<le> NaN = False"

definition less_jsnum :: "jsnum \<Rightarrow> jsnum \<Rightarrow> bool" where
  "less_jsnum x y = (x \<le> y \<and> \<not> y \<le> x)"

instance ..

end

text \<open>\<open>Math.ceil\<close>\<close>

fun Math_ceil :: "jsnum \<Rightarrow> jsnum" where
  "Math_ceil (Num a) = Num (of_int \<lceil>a\<rceil>)"
| "Math_ceil x = x"

section \<open>Data model of \<open>src/pdf.js\<close>\<close>

subsection \<open>DOM nodes and JavaScript values\<close>

text \<open>
  A DOM node as far as the module reads it: \<open>nodeType\<close> (1 is an element), the
  own entries of its \<open>dataset\<close> (one for each \<open>data-*\<close> attribute, every value a
  string), \<open>offsetWidth\<close>, \<open>offsetHeight\<close> and the ordered \<open>childNodes\<close>.
  Every element is taken to carry a dataset, as the elements of an HTML document do.
\<close>

datatype node =
  Node (nodeType: nat) (dataset: "string \<rightharpoonup> string")
       (offsetWidth: jsnum) (offsetHeight: jsnum) (childNodes: "node list")

text \<open>
  A value handed in as \<open>element\<close>, \<open>header\<close> or \<open>footer\<close>: either an instance of
  \<open>HTMLElement\<close> or anything else (\<open>undefined\<close>, \<open>null\<close>, a string, a text node ...),
  which is all that \<open>instanceof HTMLElement\<close> tells apart.
\<close>

datatype jsvalue = HTMLElement node | NotElement

text \<open>The canvas that \<open>html2canvas\<close> resolves to, with the result of its \<open>toDataURL\<close>.\<close>

record canvas =
  canvas_width :: jsnum
  canvas_height :: jsnum
  toDataURL :: string

text \<open>The object \<open>{ width, height, data }\<close> that \<open>toCanvas\<close> returns.\<close>

record image =
  width :: jsnum
  height :: jsnum
  data :: string

datatype error =
  Error string        \<comment> \<open>\<open>throw new Error(msg)\<close>\<close>
  | RangeError        \<comment> \<open>\<open>Array.from\<close> on a length above \<open>2 ^ 32 - 1\<close>\<close>
  | Rejected string   \<comment> \<open>the promise of \<open>html2canvas\<close> rejects\<close>

text \<open>
  The imported \<open>html2canvas\<close> is a parameter of the model: a function from the element to
  a rejection or a canvas.
\<close>

type_synonym rasterizer = "node \<Rightarrow> error + canvas"

subsection \<open>The jsPDF instance and the calls it receives\<close>

text \<open>
  Every call to a jsPDF primitive (\<open>addImage\<close>, \<open>setFillColor\<close>, \<open>rect\<close>,
  \<open>addPage\<close>, \<open>save\<close>, \<open>output\<close>) is recorded in order. An \<open>AddImage\<close> event also
  records which of the three call sites of the source issued it: line 113 (\<open>Content\<close>),
  line 49 (\<open>Header\<close>) or line 62 (\<open>Footer\<close>). The library behind these primitives
  is not part of the module: a primitive is taken to accept the arguments it is given.
\<close>

datatype role = Content | Header | Footer

datatype event =
  AddImage role string string jsnum jsnum jsnum jsnum
      \<comment> \<open>\<open>addImage(data, format, x, y, width, height)\<close>\<close>
  | SetFillColor nat nat nat
  | Rect jsnum jsnum jsnum jsnum string
      \<comment> \<open>\<open>rect(x, y, width, height, style)\<close>\<close>
  | AddPage
  | Save string
  | Output string

text \<open>
  The jsPDF instance of one call of \<open>outputPdf\<close>: the primitive calls it has received
  (\<open>calls\<close>) and the two fields \<open>__header\<close> and \<open>__footer\<close> that the plugin methods
  store on it (\<open>None\<close> is \<open>undefined\<close>; an object is always truthy). The record also
  keeps the elements that \<open>html2canvas\<close> has been called with (\<open>rasterized\<close>), in order.
\<close>

record pdf =
  calls :: "event list"
  rasterized :: "node list"
  cached_header :: "image option"
  cached_footer :: "image option"

definition emit :: "event \<Rightarrow> pdf \<Rightarrow> pdf" where
  "emit e p = p\<lparr>calls := calls p @ [e]\<rparr>"

text \<open>\<open>new jsPDF({ unit: 'pt', format: 'a4', orientation: 'p' })\<close>\<close>

definition new_jsPDF :: pdf where
  "new_jsPDF = \<lparr>calls = [], rasterized = [], cached_header = None, cached_footer = None\<rparr>"

text \<open>Sequencing of two steps, the second skipped when the first one throws.\<close>

definition andThen ::
  "(error + 'a) \<times> pdf \<Rightarrow> ('a \<Rightarrow> pdf \<Rightarrow> (error + 'b) \<times> pdf) \<Rightarrow> (error + 'b) \<times> pdf" where
  "andThen m f = (case m of (Inl e, p) \<Rightarrow> (Inl e, p) | (Inr a, p) \<Rightarrow> f a p)"

definition A4_WIDTH :: jsnum where
  "A4_WIDTH = fl 592.28"

definition A4_HEIGHT :: jsnum where
  "A4_HEIGHT = fl 841.89"

section \<open>The jsPDF plugin methods\<close>

text \<open>
  The methods that the module adds to \<open>jsPDF.API\<close>. Its \<open>addHeader\<close> and \<open>addFooter\<close>
  are \<open>pdf_addHeader\<close> and \<open>pdf_addFooter\<close> here, since \<open>outputPdf\<close> has closures of
  the same names.
\<close>

datatype result = FileResult string | SaveResult | OutputResult string

text \<open>
  \<open>output2\<close>: the \<open>File\<close> built for \<open>'file'\<close> carries the file name (its
  \<open>lastModified\<close> time stamp is not modelled).
\<close>

definition output2 :: "string \<Rightarrow> string \<Rightarrow> pdf \<Rightarrow> result \<times> pdf" where
  "output2 outputType filename p =
     (if outputType = ''file'' then (FileResult filename, emit (Output ''blob'') p)
      else if outputType = ''save'' then (SaveResult, emit (Save filename) p)
      else (OutputResult outputType, emit (Output outputType) p))"

definition addBlank :: "jsnum \<Rightarrow> jsnum \<Rightarrow> jsnum \<Rightarrow> jsnum \<Rightarrow> pdf \<Rightarrow> pdf" where
  "addBlank x y w h p =
     emit (Rect x y (Math_ceil w) (Math_ceil h) ''F'') (emit (SetFillColor 255 255 255) p)"

definition toCanvas :: "rasterizer \<Rightarrow> node \<Rightarrow> jsnum \<Rightarrow> pdf \<Rightarrow> (error + image) \<times> pdf" where
  "toCanvas html2canvas el w p =
     (case html2canvas el of
        Inl e \<Rightarrow> (Inl e, p\<lparr>rasterized := rasterized p @ [el]\<rparr>)
      | Inr c \<Rightarrow>
          (Inr \<lparr>width = w, height = (w / canvas_width c) * canvas_height c, data = toDataURL c\<rparr>,
           p\<lparr>rasterized := rasterized p @ [el]\<rparr>))"

definition pdf_addHeader ::
  "rasterizer \<Rightarrow> jsnum \<Rightarrow> jsnum \<Rightarrow> jsvalue \<Rightarrow> pdf \<Rightarrow> (error + unit) \<times> pdf" where
  "pdf_addHeader html2canvas x w header p =
     (case header of
        NotElement \<Rightarrow> (Inr (), p)
      | HTMLElement el \<Rightarrow>
          andThen
            (case cached_header p of
               Some img \<Rightarrow> (Inr img, p)
             | None \<Rightarrow>
                 andThen (toCanvas html2canvas el w p)
                   (\<lambda>img p'. (Inr img, p'\<lparr>cached_header := Some img\<rparr>)))
            (\<lambda>img p'. (Inr (), emit (AddImage Header (data img) ''JPEG'' x (Num 0) w (height img)) p')))"

definition pdf_addFooter ::
  "rasterizer \<Rightarrow> jsnum \<Rightarrow> jsnum \<Rightarrow> jsvalue \<Rightarrow> pdf \<Rightarrow> (error + unit) \<times> pdf" where
  "pdf_addFooter html2canvas x w footer p =
     (case footer of
        NotElement \<Rightarrow> (Inr (), p)
      | HTMLElement el \<Rightarrow>
          andThen
            (case cached_footer p of
               Some img \<Rightarrow> (Inr img, p)
             | None \<Rightarrow>
                 andThen (toCanvas html2canvas el w p)
                   (\<lambda>img p'. (Inr img, p'\<lparr>cached_footer := Some img\<rparr>)))
            (\<lambda>img p'.
               (Inr (),
                emit (AddImage Footer (data img) ''JPEG'' x (A4_HEIGHT - height img) w (height img))
                  p')))"

section \<open>The layout scanner: \<open>splitElement\<close>\<close>

text \<open>The two variables \<open>res\<close> and \<open>pos\<close> that \<open>updatePos\<close> mutates.\<close>

record scan =
  res :: "jsnum list"
  pos :: jsnum

definition updatePos :: "jsnum \<Rightarrow> jsnum \<Rightarrow> scan \<Rightarrow> scan" where
  "updatePos contentHeight h s =
     (if pos s + h \<le> contentHeight then s\<lparr>pos := pos s + h\<rparr>
      else s\<lparr>res := res s @ [pos s], pos := h\<rparr>)"

text \<open>
  \<open>one.dataset[key] != null\<close>: the dataset has an own entry for the key, or the key
  names a property that every object inherits from \<open>Object.prototype\<close>. A value of
  the first kind is a string and one of the second kind a function or an object, so
  neither is \<open>null\<close> or \<open>undefined\<close>.
\<close>

definition Object_prototype :: "string list" where
  "Object_prototype =
     [''constructor'', ''__defineGetter__'', ''__defineSetter__'', ''hasOwnProperty'',
      ''__lookupGetter__'', ''__lookupSetter__'', ''isPrototypeOf'', ''propertyIsEnumerable'',
      ''toString'', ''valueOf'', ''__proto__'', ''toLocaleString'']"

definition notNull :: "(string \<rightharpoonup> string) \<Rightarrow> string \<Rightarrow> bool" where
  "notNull ds key = (ds key \<noteq> None \<or> key \<in> set Object_prototype)"

text \<open>
  \<open>traversingNodes\<close> runs \<open>visitNode\<close>, the callback of its \<open>forEach\<close>, on the nodes in
  order.
\<close>

fun traversingNodes ::
      "jsnum \<Rightarrow> jsnum \<Rightarrow> string \<Rightarrow> string \<Rightarrow> jsnum \<Rightarrow> node list \<Rightarrow> scan \<Rightarrow> scan"
  and visitNode :: "jsnum \<Rightarrow> jsnum \<Rightarrow> string \<Rightarrow> string \<Rightarrow> jsnum \<Rightarrow> node \<Rightarrow> scan \<Rightarrow> scan"
where
  "traversingNodes contentWidth contentHeight itemName groupName elementWidth [] s = s"
| "traversingNodes contentWidth contentHeight itemName groupName elementWidth (one # nodes) s =
     traversingNodes contentWidth contentHeight itemName groupName elementWidth nodes
       (visitNode contentWidth contentHeight itemName groupName elementWidth one s)"
| "visitNode contentWidth contentHeight itemName groupName elementWidth
       (Node ty ds ow oh cs) s =
     (if ty \<noteq> 1 then s
      else if notNull ds itemName
        then updatePos contentHeight (contentWidth / elementWidth * oh) s
      else if notNull ds groupName
        then traversingNodes contentWidth contentHeight itemName groupName elementWidth cs s
      else s)"

definition splitElement :: "node \<Rightarrow> jsnum \<Rightarrow> jsnum \<Rightarrow> string \<Rightarrow> string \<Rightarrow> jsnum list" where
  "splitElement element contentWidth contentHeight itemName groupName =
     (let s = traversingNodes contentWidth contentHeight itemName groupName
                (offsetWidth element) (childNodes element) \<lparr>res = [], pos = Num 0\<rparr>
      in res s @ [pos s])"

section \<open>The page compositor: \<open>outputWithFixedSize\<close> and \<open>outputWithAdaptive\<close>\<close>

text \<open>
  Both functions receive the closures \<open>addImage\<close>, \<open>addHeader\<close> and \<open>addFooter\<close> of
  \<open>outputPdf\<close> as arguments; the jsPDF instance they all share is threaded through.
\<close>

type_synonym place = "jsnum \<Rightarrow> jsnum \<Rightarrow> pdf \<Rightarrow> pdf"
type_synonym stamp = "bool \<Rightarrow> pdf \<Rightarrow> (error + unit) \<times> pdf"

text \<open>
  The length of \<open>arr\<close>, which is \<open>Array.from({ length: pageNum })\<close> with
  \<open>pageNum = Math.ceil(height / contentHeight)\<close>, or the error that \<open>Array.from\<close>
  throws. \<open>Array.from\<close> reads \<open>NaN\<close> and every length below 1 as 0, and it throws
  a \<open>RangeError\<close> when the length exceeds \<open>2 ^ 32 - 1\<close>, as \<open>Infinity\<close> does.
  The memory that a long array takes, like every other limit of the engine, is not
  modelled.
\<close>

definition pageNum :: "jsnum \<Rightarrow> jsnum \<Rightarrow> error + nat" where
  "pageNum h contentHeight =
     (case Math_ceil (h / contentHeight) of
        Num n \<Rightarrow> if n < 1 then Inr 0
                 else if 2 ^ 32 - 1 < n then Inl RangeError
                 else Inr (nat \<lfloor>n\<rfloor>)
      | Infinity \<Rightarrow> Inl RangeError
      | NegInfinity \<Rightarrow> Inr 0
      | NaN \<Rightarrow> Inr 0)"

text \<open>
  The body of the \<open>for await\<close> loop of \<open>outputWithFixedSize\<close>, over the indices still to
  come; \<open>len\<close> is \<open>arr.length\<close>.
\<close>

fun fixedPages ::
  "jsnum \<Rightarrow> jsnum \<Rightarrow> place \<Rightarrow> stamp \<Rightarrow> stamp \<Rightarrow> jsnum \<Rightarrow> nat \<Rightarrow> nat list \<Rightarrow> pdf
     \<Rightarrow> (error + unit) \<times> pdf" where
  "fixedPages baseX baseY addImage addHeader addFooter contentHeight len [] p = (Inr (), p)"
| "fixedPages baseX baseY addImage addHeader addFooter contentHeight len (i # arr) p =
     (let p1 = addImage baseX (baseY - Num (real i) * contentHeight) p;
          isFirst = (i = 0);
          isLast = (int i = int len - 1);
          p2 = (if \<not> isFirst then addBlank (Num 0) (Num 0) A4_WIDTH baseY p1 else p1);
          p3 = (if \<not> isLast
                then addBlank (Num 0) (baseY + contentHeight) A4_WIDTH
                       (A4_HEIGHT - (baseY + contentHeight)) p2
                else p2)
      in andThen (addHeader isFirst p3) (\<lambda>_ p4.
         andThen (addFooter isLast p4) (\<lambda>_ p5.
         fixedPages baseX baseY addImage addHeader addFooter contentHeight len arr
           (if \<not> isLast then emit AddPage p5 else p5))))"

definition outputWithFixedSize ::
  "jsnum \<Rightarrow> jsnum \<Rightarrow> jsnum \<Rightarrow> place \<Rightarrow> stamp \<Rightarrow> stamp \<Rightarrow> jsnum \<Rightarrow> pdf \<Rightarrow> (error + unit) \<times> pdf" where
  "outputWithFixedSize baseX baseY h addImage addHeader addFooter contentHeight p =
     (case pageNum h contentHeight of
        Inl e \<Rightarrow> (Inl e, p)
      | Inr n \<Rightarrow>
          fixedPages baseX baseY addImage addHeader addFooter contentHeight n [0..<n] p)"

text \<open>
  The body of the \<open>for await\<close> loop of \<open>outputWithAdaptive\<close>, over the entries still to
  come; \<open>len\<close> is \<open>elements.length\<close>.
\<close>

fun adaptivePages ::
  "jsnum \<Rightarrow> jsnum \<Rightarrow> place \<Rightarrow> stamp \<Rightarrow> stamp \<Rightarrow> nat \<Rightarrow> jsnum list \<Rightarrow> jsnum \<Rightarrow> nat \<Rightarrow> pdf
     \<Rightarrow> (error + unit) \<times> pdf" where
  "adaptivePages baseX baseY addImage addHeader addFooter len []
       accumulationHeight currentPage p = (Inr (), p)"
| "adaptivePages baseX baseY addImage addHeader addFooter len (elementHeight # elements)
       accumulationHeight currentPage p =
     (let p1 = addImage baseX (baseY - accumulationHeight) p;
          isFirst = (currentPage = 0);
          isLast = (int currentPage = int len - 1);
          p2 = (if \<not> isFirst then addBlank (Num 0) (Num 0) A4_WIDTH baseY p1 else p1);
          p3 = (if \<not> isLast
                then addBlank (Num 0) (baseY + elementHeight) A4_WIDTH
                       (A4_HEIGHT - (baseY + elementHeight)) p2
                else p2)
      in andThen (addHeader isFirst p3) (\<lambda>_ p4.
         andThen (addFooter isLast p4) (\<lambda>_ p5.
         adaptivePages baseX baseY addImage addHeader addFooter len elements
           (accumulationHeight + elementHeight) (currentPage + 1)
           (if \<not> isLast then emit AddPage p5 else p5))))"

definition outputWithAdaptive ::
  "node \<Rightarrow> jsnum \<Rightarrow> string \<Rightarrow> string \<Rightarrow> jsnum \<Rightarrow> jsnum \<Rightarrow> place \<Rightarrow> stamp \<Rightarrow> stamp \<Rightarrow> jsnum
     \<Rightarrow> pdf \<Rightarrow> (error + unit) \<times> pdf" where
  "outputWithAdaptive element contentWidth itemName groupName baseX baseY
       addImage addHeader addFooter contentHeight p =
     (let elements = splitElement element contentWidth contentHeight itemName groupName
      in adaptivePages baseX baseY addImage addHeader addFooter (length elements) elements
           (Num 0) 0 p)"

section \<open>The orchestrator: \<open>outputPdf\<close>\<close>

text \<open>The three closures that \<open>outputPdf\<close> builds over its local variables.\<close>

definition addHeader :: "rasterizer \<Rightarrow> jsnum \<Rightarrow> jsnum \<Rightarrow> jsvalue \<Rightarrow> bool \<Rightarrow> stamp" where
  "addHeader html2canvas baseX contentWidth header headerOnlyFirst isFirst p =
     (if isFirst \<or> \<not> headerOnlyFirst then pdf_addHeader html2canvas baseX contentWidth header p
      else (Inr (), p))"

definition addFooter :: "rasterizer \<Rightarrow> jsnum \<Rightarrow> jsnum \<Rightarrow> jsvalue \<Rightarrow> bool \<Rightarrow> stamp" where
  "addFooter html2canvas baseX contentWidth footer footerOnlyLast isLast p =
     (if isLast \<or> \<not> footerOnlyLast then pdf_addFooter html2canvas baseX contentWidth footer p
      else (Inr (), p))"

definition addImage :: "image \<Rightarrow> place" where
  "addImage img x y p = emit (AddImage Content (data img) ''JPEG'' x y (width img) (height img)) p"

text \<open>
  The argument object of \<open>outputPdf\<close>. A field that the caller leaves out is \<open>None\<close>
  and takes the default of the parameter list; \<open>x\<close> and \<open>y\<close> are \<open>None\<close> when they are
  \<open>undefined\<close> or \<open>null\<close>.
\<close>

record param =
  param_element :: jsvalue
  param_contentWidth :: "jsnum option"
  param_contentHeight :: "jsnum option"
  param_outputType :: "string option"
  param_filename :: "string option"
  param_x :: "jsnum option"
  param_y :: "jsnum option"
  param_header :: jsvalue
  param_footer :: jsvalue
  param_headerOnlyFirst :: "bool option"
  param_footerOnlyLast :: "bool option"
  param_mode :: "string option"
  param_itemName :: "string option"
  param_groupName :: "string option"

definition dflt :: "'a \<Rightarrow> 'a option \<Rightarrow> 'a" where
  "dflt d v = (case v of None \<Rightarrow> d | Some a \<Rightarrow> a)"

text \<open>
  \<open>outputPdf\<close> returns what it resolves to, or the error it rejects with, together with
  the record of the calls it made to its collaborators (the empty record when it throws
  before \<open>new jsPDF\<close>).
\<close>

definition outputPdf :: "rasterizer \<Rightarrow> param \<Rightarrow> (error + result) \<times> pdf" where
  "outputPdf html2canvas param =
     (let contentWidth = dflt (Num 550) (param_contentWidth param);
          contentHeight = dflt (Num 800) (param_contentHeight param);
          outputType = dflt ''save'' (param_outputType param);
          filename = dflt ''document.pdf'' (param_filename param);
          header = param_header param;
          footer = param_footer param;
          headerOnlyFirst = dflt True (param_headerOnlyFirst param);
          footerOnlyLast = dflt True (param_footerOnlyLast param);
          mode = dflt ''adaptive'' (param_mode param);
          itemName = dflt ''item'' (param_itemName param);
          groupName = dflt ''group'' (param_groupName param)
      in case param_element param of
           NotElement \<Rightarrow> (Inl (Error ''The root element must be HTMLElement.''), new_jsPDF)
         | HTMLElement element \<Rightarrow>
             (andThen (toCanvas html2canvas element contentWidth new_jsPDF) (\<lambda>img p.
                  let baseX = (case param_x param of
                                 None \<Rightarrow> (A4_WIDTH - contentWidth) / Num 2 | Some x \<Rightarrow> x);
                      baseY = (case param_y param of
                                 None \<Rightarrow> (A4_HEIGHT - contentHeight) / Num 2 | Some y \<Rightarrow> y);
                      hdr = addHeader html2canvas baseX contentWidth header headerOnlyFirst;
                      ftr = addFooter html2canvas baseX contentWidth footer footerOnlyLast
                  in andThen
                       (if mode = ''adaptive''
                        then outputWithAdaptive element contentWidth itemName groupName
                               baseX baseY (addImage img) hdr ftr contentHeight p
                        else outputWithFixedSize baseX baseY (height img)
                               (addImage img) hdr ftr contentHeight p)
                       (\<lambda>_ p'. case output2 outputType filename p' of
                                  (r, p'') \<Rightarrow> (Inr r, p'')))))"
section \<open>Observations on a run\<close>

subsection \<open>The items a scan meets\<close>

text \<open>
  The Item nodes met by the traversal, in document order: nodes that are not elements are
  skipped, an element tagged as item is an Item (whether or not it is also tagged as
  group), an element tagged only as group is searched through its children, and an
  untagged element is skipped together with everything below it.
\<close>

fun itemsOf :: "string \<Rightarrow> string \<Rightarrow> node list \<Rightarrow> node list"
  and itemsIn :: "string \<Rightarrow> string \<Rightarrow> node \<Rightarrow> node list"
where
  "itemsOf itemName groupName [] = []"
| "itemsOf itemName groupName (one # nodes) =
     itemsIn itemName groupName one @ itemsOf itemName groupName nodes"
| "itemsIn itemName groupName (Node ty ds ow oh cs) =
     (if ty \<noteq> 1 then []
      else if notNull ds itemName then [Node ty ds ow oh cs]
      else if notNull ds groupName then itemsOf itemName groupName cs
      else [])"

text \<open>
  Their scaled heights \<open>contentWidth / rootWidth * nativeHeight\<close>, in the same order
  and as the code computes them: the quotient is rounded, and so is the product.
\<close>

definition scaledHeights :: "node \<Rightarrow> jsnum \<Rightarrow> string \<Rightarrow> string \<Rightarrow> jsnum list" where
  "scaledHeights element contentWidth itemName groupName =
     map (\<lambda>one. contentWidth / offsetWidth element * offsetHeight one)
       (itemsOf itemName groupName (childNodes element))"

text \<open>
  The sum of a sequence of numbers, added from left to right in double precision and
  starting from 0, as \<open>xs.reduce((a, b) => a + b, 0)\<close> computes it; and the sum of a
  sequence that is not empty, starting from its first number, as the scanner
  accumulates \<open>pos\<close> on a page that an item has opened.
\<close>

definition sumFromZero :: "jsnum list \<Rightarrow> jsnum" where
  "sumFromZero xs = foldl (+) (Num 0) xs"

fun runSum :: "jsnum list \<Rightarrow> jsnum" where
  "runSum [] = Num 0"
| "runSum (h # hs) = foldl (+) h hs"

subsection \<open>Pages, stamps and rectangles in the recorded calls\<close>

text \<open>
  A jsPDF instance starts with one page and draws on the page added last, so the calls
  between two \<open>addPage\<close> calls are the content of one page.
\<close>

fun pagesOf :: "event list \<Rightarrow> event list list" where
  "pagesOf [] = [[]]"
| "pagesOf (AddPage # es) = [] # pagesOf es"
| "pagesOf (e # es) = (e # hd (pagesOf es)) # tl (pagesOf es)"

text \<open>The \<open>addImage\<close> calls issued from one call site.\<close>

fun stampedBy :: "role \<Rightarrow> event \<Rightarrow> bool" where
  "stampedBy r (AddImage r' d f x y w h) = (r = r')"
| "stampedBy r _ = False"

text \<open>
  The bitmaps, as data and height, that the \<open>addImage\<close> calls of one call site draw.
\<close>

fun stamps :: "role \<Rightarrow> event list \<Rightarrow> (string \<times> jsnum) list" where
  "stamps r [] = []"
| "stamps r (AddImage r' d f x y w h # es) =
     (if r' = r then (d, h) # stamps r es else stamps r es)"
| "stamps r (e # es) = stamps r es"

text \<open>The rectangles \<open>(x, y, width, height)\<close> of the \<open>rect\<close> calls.\<close>

fun rects :: "event list \<Rightarrow> (jsnum \<times> jsnum \<times> jsnum \<times> jsnum) list" where
  "rects [] = []"
| "rects (Rect x y w h s # es) = (x, y, w, h) # rects es"
| "rects (e # es) = rects es"

text \<open>
  A rectangle on the page, when its four numbers are finite. A negative width or height
  extends the rectangle to the other side of its origin, as the \<open>re\<close> operator of PDF
  does. \<open>overlapWidth\<close> and \<open>overlapHeight\<close> are the extent of the region that two
  rectangles share, when they are positive; two rectangles overlap when they share a
  region of positive area.
\<close>

type_synonym rectangle = "real \<times> real \<times> real \<times> real"

fun onPage :: "jsnum \<times> jsnum \<times> jsnum \<times> jsnum \<Rightarrow> rectangle option" where
  "onPage (Num x, Num y, Num w, Num h) = Some (x, y, w, h)"
| "onPage r = None"

definition overlapWidth :: "rectangle \<Rightarrow> rectangle \<Rightarrow> real" where
  "overlapWidth r b =
     (case r of (x1, y1, w1, h1) \<Rightarrow> case b of (x2, y2, w2, h2) \<Rightarrow>
        min (max x1 (x1 + w1)) (max x2 (x2 + w2)) - max (min x1 (x1 + w1)) (min x2 (x2 + w2)))"

definition overlapHeight :: "rectangle \<Rightarrow> rectangle \<Rightarrow> real" where
  "overlapHeight r b =
     (case r of (x1, y1, w1, h1) \<Rightarrow> case b of (x2, y2, w2, h2) \<Rightarrow>
        min (max y1 (y1 + h1)) (max y2 (y2 + h2)) - max (min y1 (y1 + h1)) (min y2 (y2 + h2)))"

definition overlap :: "rectangle \<Rightarrow> rectangle \<Rightarrow> bool" where
  "overlap r b = (0 < overlapWidth r b \<and> 0 < overlapHeight r b)"

subsection \<open>Headers and footers that can be rasterized\<close>

text \<open>
  \<open>rasterOK\<close>: the value is not an element (and is never rasterized), or
  \<open>html2canvas\<close> resolves on it. \<open>bandImage\<close> is then the object that \<open>toCanvas\<close>
  returns for it at the given width, and \<open>elems\<close> the element itself.
\<close>

definition rasterOK :: "rasterizer \<Rightarrow> jsvalue \<Rightarrow> bool" where
  "rasterOK html2canvas v =
     (case v of NotElement \<Rightarrow> True
      | HTMLElement el \<Rightarrow> (case html2canvas el of Inl _ \<Rightarrow> False | Inr _ \<Rightarrow> True))"

definition bandImage :: "rasterizer \<Rightarrow> jsnum \<Rightarrow> jsvalue \<Rightarrow> image option" where
  "bandImage html2canvas w v =
     (case v of NotElement \<Rightarrow> None
      | HTMLElement el \<Rightarrow>
          (case html2canvas el of Inl _ \<Rightarrow> None
           | Inr c \<Rightarrow> Some \<lparr>width = w, height = (w / canvas_width c) * canvas_height c,
                           data = toDataURL c\<rparr>))"

definition elems :: "jsvalue \<Rightarrow> node list" where
  "elems v = (case v of NotElement \<Rightarrow> [] | HTMLElement el \<Rightarrow> [el])"

subsection \<open>The calls of one page, written out\<close>

text \<open>
  For the proofs: the calls of a header stamp, a footer stamp and a blanking rectangle;
  \<open>pageCalls\<close>, the calls that one pass of a loop makes before it appends a page, for
  the entry \<open>e\<close> with the content image at \<open>y\<close>; \<open>pageList\<close>, these calls for a
  list of such pairs; \<open>adaptiveOffsets\<close> and \<open>fixedLayout\<close>, the pairs of the two
  loops; and \<open>joinPages\<close>, which puts an \<open>addPage\<close> between two pages.
\<close>

definition headerCalls :: "jsnum \<Rightarrow> jsnum \<Rightarrow> image option \<Rightarrow> event list" where
  "headerCalls x w io =
     (case io of None \<Rightarrow> []
      | Some i \<Rightarrow> [AddImage Header (data i) ''JPEG'' x (Num 0) w (height i)])"

definition footerCalls :: "jsnum \<Rightarrow> jsnum \<Rightarrow> image option \<Rightarrow> event list" where
  "footerCalls x w io =
     (case io of None \<Rightarrow> []
      | Some i \<Rightarrow> [AddImage Footer (data i) ''JPEG'' x (A4_HEIGHT - height i) w (height i)])"

definition blankCalls :: "jsnum \<Rightarrow> jsnum \<Rightarrow> jsnum \<Rightarrow> jsnum \<Rightarrow> event list" where
  "blankCalls x y w h = [SetFillColor 255 255 255, Rect x y (Math_ceil w) (Math_ceil h) ''F'']"

definition pageCalls ::
  "image \<Rightarrow> jsnum \<Rightarrow> jsnum \<Rightarrow> jsnum \<Rightarrow> image option \<Rightarrow> bool \<Rightarrow> image option \<Rightarrow> bool
     \<Rightarrow> bool \<Rightarrow> bool \<Rightarrow> jsnum \<times> jsnum \<Rightarrow> event list" where
  "pageCalls img bX bY cw hio hof fio fol isFirst isLast ye =
     [AddImage Content (data img) ''JPEG'' bX (fst ye) (width img) (height img)]
     @ (if \<not> isFirst then blankCalls (Num 0) (Num 0) A4_WIDTH bY else [])
     @ (if \<not> isLast
        then blankCalls (Num 0) (bY + snd ye) A4_WIDTH (A4_HEIGHT - (bY + snd ye)) else [])
     @ (if isFirst \<or> \<not> hof then headerCalls bX cw hio else [])
     @ (if isLast \<or> \<not> fol then footerCalls bX cw fio else [])"

fun pageList ::
  "image \<Rightarrow> jsnum \<Rightarrow> jsnum \<Rightarrow> jsnum \<Rightarrow> image option \<Rightarrow> bool \<Rightarrow> image option \<Rightarrow> bool
     \<Rightarrow> (jsnum \<times> jsnum) list \<Rightarrow> nat \<Rightarrow> event list list" where
  "pageList img bX bY cw hio hof fio fol [] cur = []"
| "pageList img bX bY cw hio hof fio fol (ye # yes) cur =
     pageCalls img bX bY cw hio hof fio fol (cur = 0) (yes = []) ye
       # pageList img bX bY cw hio hof fio fol yes (cur + 1)"

fun adaptiveOffsets :: "jsnum \<Rightarrow> jsnum \<Rightarrow> jsnum list \<Rightarrow> jsnum list" where
  "adaptiveOffsets bY acc [] = []"
| "adaptiveOffsets bY acc (e # es) = (bY - acc) # adaptiveOffsets bY (acc + e) es"

definition adaptiveLayout :: "jsnum \<Rightarrow> jsnum list \<Rightarrow> (jsnum \<times> jsnum) list" where
  "adaptiveLayout bY els = zip (adaptiveOffsets bY (Num 0) els) els"

definition fixedLayout :: "jsnum \<Rightarrow> jsnum \<Rightarrow> nat \<Rightarrow> (jsnum \<times> jsnum) list" where
  "fixedLayout bY ch n = map (\<lambda>i. (bY - Num (real i) * ch, ch)) [0..<n]"

text \<open>
  The loop that both pagination functions run, on the pairs of the offset of the content
  image and the height of the entry.
\<close>

fun pagesLoop ::
  "jsnum \<Rightarrow> jsnum \<Rightarrow> place \<Rightarrow> stamp \<Rightarrow> stamp \<Rightarrow> nat \<Rightarrow> (jsnum \<times> jsnum) list \<Rightarrow> nat \<Rightarrow> pdf
     \<Rightarrow> (error + unit) \<times> pdf" where
  "pagesLoop baseX baseY aI aH aF len [] cur p = (Inr (), p)"
| "pagesLoop baseX baseY aI aH aF len (ye # rest) cur p =
     (let p1 = aI baseX (fst ye) p;
          isFirst = (cur = 0);
          isLast = (int cur = int len - 1);
          p2 = (if \<not> isFirst then addBlank (Num 0) (Num 0) A4_WIDTH baseY p1 else p1);
          p3 = (if \<not> isLast
                then addBlank (Num 0) (baseY + snd ye) A4_WIDTH
                       (A4_HEIGHT - (baseY + snd ye)) p2
                else p2)
      in andThen (aH isFirst p3) (\<lambda>_ p4.
         andThen (aF isLast p4) (\<lambda>_ p5.
         pagesLoop baseX baseY aI aH aF len rest (cur + 1)
           (if \<not> isLast then emit AddPage p5 else p5))))"

fun joinPages :: "event list list \<Rightarrow> event list" where
  "joinPages [] = []"
| "joinPages [b] = b"
| "joinPages (b # bs) = b @ [AddPage] @ joinPages bs"

text \<open>The primitive that \<open>output2\<close> calls.\<close>

definition outputCall :: "string \<Rightarrow> string \<Rightarrow> event" where
  "outputCall outputType filename =
     (if outputType = ''file'' then Output ''blob''
      else if outputType = ''save'' then Save filename
      else Output outputType)"
section \<open>Sample inputs\<close>

text \<open>
  A root of width 1100 with an item, a text node, a group of two items, and an untagged
  element whose item child the scan never reaches. At the content width 550 the scale
  factor is one half, and the three items that the scan meets have the scaled heights
  300, 600 and 100.
\<close>

definition item300 :: node where
  "item300 = Node 1 [''item'' \<mapsto> ''''] (Num 1100) (Num 600) []"

definition item600 :: node where
  "item600 = Node 1 [''item'' \<mapsto> ''''] (Num 1100) (Num 1200) []"

definition item100 :: node where
  "item100 = Node 1 [''item'' \<mapsto> ''''] (Num 1100) (Num 200) []"

definition sampleRoot :: node where
  "sampleRoot = Node 1 Map.empty (Num 1100) (Num 2000)
     [item300, Node 3 Map.empty (Num 0) (Num 0) [],
      Node 1 [''group'' \<mapsto> ''''] (Num 1100) (Num 1400) [item600, item100],
      Node 1 Map.empty (Num 1100) (Num 50) [item100]]"

text \<open>
  A root of the same width whose two items have the scaled heights 900 and 100: the
  first alone exceeds the default \<open>contentHeight\<close> of 800.
\<close>

definition oversizedRoot :: node where
  "oversizedRoot = Node 1 Map.empty (Num 1100) (Num 2000)
     [Node 1 [''item'' \<mapsto> ''''] (Num 1100) (Num 1800) [], item100]"

text \<open>
  A root of width 1000 with items of the heights 150, 400 and 100. At the content width
  550 the scale factor \<open>0.55\<close> is not a double, and neither are two of the three scaled
  heights.
\<close>

definition roundingRoot :: node where
  "roundingRoot = Node 1 Map.empty (Num 1000) (Num 650)
     [Node 1 [''item'' \<mapsto> ''''] (Num 1000) (Num 150) [],
      Node 1 [''item'' \<mapsto> ''''] (Num 1000) (Num 400) [],
      Node 1 [''item'' \<mapsto> ''''] (Num 1000) (Num 100) []]"

text \<open>
  A root of width 1000 with a single item of height 100, whose scaled height at the
  content width 550 would be 55 in exact arithmetic and is the next double above 55 as
  the code computes it.
\<close>

definition tieRoot :: node where
  "tieRoot = Node 1 Map.empty (Num 1000) (Num 100)
     [Node 1 [''item'' \<mapsto> ''''] (Num 1000) (Num 100) []]"

text \<open>
  A root without layout, as a document that is not rendered has it: the width and the
  height of every element are 0.
\<close>

definition flatRoot :: node where
  "flatRoot = Node 1 Map.empty (Num 0) (Num 0) [Node 1 [''item'' \<mapsto> ''''] (Num 0) (Num 0) []]"

text \<open>
  A rasterizer that resolves on every element, to a canvas of the element's own size; a
  header of height 40 and a footer of height 30 at width 1100; and the image that
  \<open>toCanvas\<close> returns for \<open>sampleRoot\<close> at the width 550.
\<close>

definition sampleRaster :: rasterizer where
  "sampleRaster el =
     Inr \<lparr>canvas_width = offsetWidth el, canvas_height = offsetHeight el,
          toDataURL = ''data:image/jpeg''\<rparr>"

definition sampleHeader :: node where
  "sampleHeader = Node 1 Map.empty (Num 1100) (Num 40) []"

definition sampleFooter :: node where
  "sampleFooter = Node 1 Map.empty (Num 1100) (Num 30) []"

definition sampleImage :: image where
  "sampleImage = \<lparr>width = Num 550, height = Num 1000, data = ''data:image/jpeg''\<rparr>"

text \<open>A root of height 4000 at width 1100, and its image at the width 550.\<close>

definition tallRoot :: node where
  "tallRoot = Node 1 Map.empty (Num 1100) (Num 4000) []"

definition tallImage :: image where
  "tallImage = \<lparr>width = Num 550, height = Num 2000, data = ''data:image/jpeg''\<rparr>"

text \<open>
  An argument object that leaves every option out but the root, the header and the
  footer.
\<close>

definition sampleParam :: "jsvalue \<Rightarrow> jsvalue \<Rightarrow> jsvalue \<Rightarrow> param" where
  "sampleParam el header footer =
     \<lparr>param_element = el, param_contentWidth = None, param_contentHeight = None,
      param_outputType = None, param_filename = None, param_x = None, param_y = None,
      param_header = header, param_footer = footer,
      param_headerOnlyFirst = None, param_footerOnlyLast = None, param_mode = None,
      param_itemName = None, param_groupName = None\<rparr>"

text \<open>
  The same with \<open>sampleRoot\<close>, a header and a footer, both stamped on every page.
\<close>

definition repeatParam :: param where
  "repeatParam =
     (sampleParam (HTMLElement sampleRoot) (HTMLElement sampleHeader) (HTMLElement sampleFooter))
       \<lparr>param_headerOnlyFirst := Some False, param_footerOnlyLast := Some False\<rparr>"

text \<open>The same in fixed mode.\<close>

definition fixedParam :: param where
  "fixedParam = repeatParam\<lparr>param_mode := Some ''fixed''\<rparr>"

text \<open>
  The default values of \<open>baseX\<close> and \<open>baseY\<close>, and the doubles that the literals
  \<open>592.28\<close> and \<open>841.89\<close> denote.
\<close>

definition defaultBaseX :: jsnum where
  "defaultBaseX = (A4_WIDTH - Num 550) / Num 2"

definition defaultBaseY :: jsnum where
  "defaultBaseY = (A4_HEIGHT - Num 800) / Num 2"

section \<open>Facts about the numbers\<close>

text \<open>
  Rounding evaluates on a rational argument by these equations; it keeps the sign of its
  argument.
\<close>

lemmas fl_eval = fl_def ulp_def rne_def expo.simps Let_def

lemma ulp_pos: "0 < ulp x"
  by (simp add: ulp_def)

lemma rne_nonneg: "0 \<le> y \<Longrightarrow> 0 \<le> rne y"
  by (simp add: rne_def Let_def)

lemma fl_nonneg: "0 \<le> x \<Longrightarrow> fl x = Num z \<Longrightarrow> 0 \<le> z"
proof -
  assume x: "0 \<le> x" and z: "fl x = Num z"
  have "0 \<le> x / ulp x"
    using x ulp_pos[of x] by simp
  then have "0 \<le> real_of_int (rne (x / ulp x)) * ulp x"
    using rne_nonneg[of "x / ulp x"] ulp_pos[of x] by simp
  then show "0 \<le> z"
    using z by (auto simp: fl_def Let_def split: if_splits)
qed

lemma le_Num_cases: "Num a \<le> x \<Longrightarrow> x = Infinity \<or> (\<exists>b. x = Num b \<and> a \<le> b)"
  by (cases x) simp_all

lemma not_NaN_le: "x \<noteq> NaN \<Longrightarrow> y \<noteq> NaN \<Longrightarrow> \<not> x \<le> y \<Longrightarrow> y < (x::jsnum)"
  by (cases x; cases y) (simp_all add: less_jsnum_def)

lemma le_refl_jsnum: "x \<noteq> NaN \<Longrightarrow> x \<le> (x::jsnum)"
  by (cases x) simp_all

lemma le_not_NaN: "x \<le> (y::jsnum) \<Longrightarrow> x \<noteq> NaN \<and> y \<noteq> NaN"
  by (cases x; cases y) simp_all

lemma A4_WIDTH_eq: "A4_WIDTH = Num (2604874987596677 / 2 ^ 42)"
  by (simp add: A4_WIDTH_def fl_eval)

lemma A4_HEIGHT_eq: "A4_HEIGHT = Num (7405342754466693 / 2 ^ 43)"
  by (simp add: A4_HEIGHT_def fl_eval)

lemma ceil_A4_WIDTH: "Math_ceil A4_WIDTH = Num 593"
proof -
  have "\<lceil>(2604874987596677::real) / 2 ^ 42\<rceil> = 593"
    by (simp add: ceiling_eq_iff)
  then show ?thesis
    by (simp add: A4_WIDTH_eq)
qed

lemma defaultBaseX_eq: "defaultBaseX = Num (185949406489477 / 2 ^ 43)"
  by (simp add: defaultBaseX_def A4_WIDTH_eq minus_jsnum_def fl_eval)

lemma defaultBaseY_eq: "defaultBaseY = Num (368468336700293 / 2 ^ 44)"
  by (simp add: defaultBaseY_def A4_HEIGHT_eq minus_jsnum_def fl_eval)

section \<open>The scan as a fold over the item heights\<close>

lemma traverse_fold:
  "traversingNodes cw ch item grp ew nodes s =
     foldl (\<lambda>s h. updatePos ch h s) s
       (map (\<lambda>one. cw / ew * offsetHeight one) (itemsOf item grp nodes))"
  "visitNode cw ch item grp ew one s =
     foldl (\<lambda>s h. updatePos ch h s) s
       (map (\<lambda>one. cw / ew * offsetHeight one) (itemsIn item grp one))"
  by (induction cw ch item grp ew nodes s and cw ch item grp ew one s
      rule: traversingNodes_visitNode.induct) simp_all

lemma splitElement_fold:
  "splitElement element cw ch itemName groupName =
     (let s = foldl (\<lambda>s h. updatePos ch h s) \<lparr>res = [], pos = Num 0\<rparr>
                (scaledHeights element cw itemName groupName)
      in res s @ [pos s])"
  by (simp add: splitElement_def scaledHeights_def traverse_fold Let_def)

lemma splitElement_nonempty: "splitElement element cw ch itemName groupName \<noteq> []"
  by (simp add: splitElement_def Let_def)

lemma fold_bound:
  "\<forall>e \<in> set (res s) \<union> {pos s}. e \<le> ch \<or> e \<in> set hs0 \<Longrightarrow> set hs \<subseteq> set hs0 \<Longrightarrow>
   \<forall>e \<in> set (res (foldl (\<lambda>s h. updatePos ch h s) s hs))
          \<union> {pos (foldl (\<lambda>s h. updatePos ch h s) s hs)}. e \<le> ch \<or> e \<in> set hs0"
proof (induction hs arbitrary: s)
  case Nil
  then show ?case by simp
next
  case (Cons h hs)
  have step: "\<forall>e \<in> set (res (updatePos ch h s)) \<union> {pos (updatePos ch h s)}. e \<le> ch \<or> e \<in> set hs0"
    using Cons.prems by (auto simp: updatePos_def)
  have sub: "set hs \<subseteq> set hs0"
    using Cons.prems(2) by simp
  show ?case
    using Cons.IH[OF step sub] by simp
qed

lemma fold_runs:
  "\<exists>first rest. hs = first @ concat rest \<and> [] \<notin> set rest
     \<and> res (foldl (\<lambda>s h. updatePos ch h s) \<lparr>res = rs, pos = p\<rparr> hs)
         @ [pos (foldl (\<lambda>s h. updatePos ch h s) \<lparr>res = rs, pos = p\<rparr> hs)]
       = rs @ foldl (+) p first # map runSum rest"
proof (induction hs arbitrary: rs p)
  case Nil
  show ?case
    by (rule exI[of _ "[]"], rule exI[of _ "[]"]) simp
next
  case (Cons h hs)
  show ?case
  proof (cases "p + h \<le> ch")
    case True
    from Cons.IH[of rs "p + h"] obtain first rest where
      hs: "hs = first @ concat rest" and ne: "[] \<notin> set rest"
      and run: "res (foldl (\<lambda>s h. updatePos ch h s) \<lparr>res = rs, pos = p + h\<rparr> hs)
         @ [pos (foldl (\<lambda>s h. updatePos ch h s) \<lparr>res = rs, pos = p + h\<rparr> hs)]
       = rs @ foldl (+) (p + h) first # map runSum rest"
      by blast
    have "h # hs = (h # first) @ concat rest \<and> [] \<notin> set rest
      \<and> res (foldl (\<lambda>s h. updatePos ch h s) \<lparr>res = rs, pos = p\<rparr> (h # hs))
         @ [pos (foldl (\<lambda>s h. updatePos ch h s) \<lparr>res = rs, pos = p\<rparr> (h # hs))]
       = rs @ foldl (+) p (h # first) # map runSum rest"
      using True hs ne run by (simp add: updatePos_def)
    then show ?thesis by blast
  next
    case False
    from Cons.IH[of "rs @ [p]" h] obtain first rest where
      hs: "hs = first @ concat rest" and ne: "[] \<notin> set rest"
      and run: "res (foldl (\<lambda>s h. updatePos ch h s) \<lparr>res = rs @ [p], pos = h\<rparr> hs)
         @ [pos (foldl (\<lambda>s h. updatePos ch h s) \<lparr>res = rs @ [p], pos = h\<rparr> hs)]
       = (rs @ [p]) @ foldl (+) h first # map runSum rest"
      by blast
    have "h # hs = [] @ concat ((h # first) # rest) \<and> [] \<notin> set ((h # first) # rest)
      \<and> res (foldl (\<lambda>s h. updatePos ch h s) \<lparr>res = rs, pos = p\<rparr> (h # hs))
         @ [pos (foldl (\<lambda>s h. updatePos ch h s) \<lparr>res = rs, pos = p\<rparr> (h # hs))]
       = rs @ foldl (+) p [] # map runSum ((h # first) # rest)"
      using False hs ne run by (simp add: updatePos_def)
    then show ?thesis by blast
  qed
qed

section \<open>The compositor loop, page by page\<close>

text \<open>
  From the state in which \<open>outputPdf\<close> starts a loop, and through every page, the
  stamps succeed and the state after them is known exactly; so is the state after the loop.
  Both loops are \<open>pagesLoop\<close>, on the pairs of \<open>adaptiveOffsets\<close> and of
  \<open>fixedLayout\<close>.
\<close>

lemma addBlank_exact: "addBlank x y w h p = p\<lparr>calls := calls p @ blankCalls x y w h\<rparr>"
  by (simp add: addBlank_def emit_def blankCalls_def)

lemma addHeader_exact:
  assumes "rasterOK html2canvas header"
    and "cached_header p = (if cur = 0 then None else bandImage html2canvas cw header)"
  shows "addHeader html2canvas bX cw header hof (cur = (0::nat)) p =
     (Inr (), p\<lparr>calls := calls p @ (if cur = 0 \<or> \<not> hof
                                      then headerCalls bX cw (bandImage html2canvas cw header) else []),
               rasterized := rasterized p @ (if cur = 0 then elems header else []),
               cached_header := bandImage html2canvas cw header\<rparr>)"
proof (cases header)
  case NotElement
  then show ?thesis
    using assms(2)
    by (cases p) (simp add: addHeader_def pdf_addHeader_def bandImage_def elems_def headerCalls_def)
next
  case (HTMLElement el)
  then obtain c where c: "html2canvas el = Inr c"
    using assms(1) by (auto simp: rasterOK_def split: sum.splits)
  show ?thesis
    using assms(2) HTMLElement c
    by (cases p)
       (simp add: addHeader_def pdf_addHeader_def bandImage_def elems_def headerCalls_def
          andThen_def toCanvas_def emit_def)
qed

lemma addFooter_exact:
  assumes "rasterOK html2canvas footer"
    and "cached_footer p = (if cur = 0 \<or> fol then None else bandImage html2canvas cw footer)"
  shows "addFooter html2canvas bX cw footer fol isLast p =
     (Inr (), p\<lparr>calls := calls p @ (if isLast \<or> \<not> fol
                                      then footerCalls bX cw (bandImage html2canvas cw footer) else []),
               rasterized := rasterized p @
                  (if (isLast \<or> \<not> fol) \<and> (cur = (0::nat) \<or> fol) then elems footer else []),
               cached_footer := (if isLast \<or> \<not> fol then bandImage html2canvas cw footer else None)\<rparr>)"
proof (cases footer)
  case NotElement
  then show ?thesis
    using assms(2)
    by (cases p) (simp add: addFooter_def pdf_addFooter_def bandImage_def elems_def footerCalls_def)
next
  case (HTMLElement el)
  then obtain c where c: "html2canvas el = Inr c"
    using assms(1) by (auto simp: rasterOK_def split: sum.splits)
  show ?thesis
    using assms(2) HTMLElement c
    by (cases p)
       (simp add: addFooter_def pdf_addFooter_def bandImage_def elems_def footerCalls_def
          andThen_def toCanvas_def emit_def)
qed


lemma pagesLoop_exact:
  assumes "rasterOK html2canvas header" and "rasterOK html2canvas footer"
    and "cur + length yes = len"
    and "cached_header p = (if cur = 0 then None else bandImage html2canvas cw header)"
    and "cached_footer p = (if cur = 0 \<or> fol then None else bandImage html2canvas cw footer)"
    and "yes \<noteq> []"
  shows "pagesLoop bX bY (addImage img) (addHeader html2canvas bX cw header hof)
           (addFooter html2canvas bX cw footer fol) len yes cur p =
     (Inr (),
      p\<lparr>calls := calls p @ joinPages (pageList img bX bY cw (bandImage html2canvas cw header) hof
                                        (bandImage html2canvas cw footer) fol yes cur),
        rasterized := rasterized p @ (if cur = 0 then elems header else [])
                         @ (if cur = 0 \<or> fol then elems footer else []),
        cached_header := bandImage html2canvas cw header,
        cached_footer := bandImage html2canvas cw footer\<rparr>)"
  using assms
proof (induction yes arbitrary: cur p)
  case Nil
  then show ?case by simp
next
  case (Cons ye es)
  let ?hio = "bandImage html2canvas cw header"
  let ?fio = "bandImage html2canvas cw footer"
  let ?isLast = "int cur = int len - 1"
  let ?y = "fst ye"
  let ?e = "snd ye"
  have last_iff: "?isLast = (es = [])"
    using Cons.prems(3) by auto
  let ?p1 = "addImage img bX ?y p"
  let ?p2 = "if \<not> (cur = 0) then addBlank (Num 0) (Num 0) A4_WIDTH bY ?p1 else ?p1"
  let ?p3 = "if \<not> ?isLast
             then addBlank (Num 0) (bY + ?e) A4_WIDTH (A4_HEIGHT - (bY + ?e)) ?p2 else ?p2"
  have c3h: "cached_header ?p3 = cached_header p" and c3f: "cached_footer ?p3 = cached_footer p"
    by (simp_all add: addImage_def emit_def addBlank_exact)
  have calls3: "calls ?p3 = calls p
      @ [AddImage Content (data img) ''JPEG'' bX ?y (width img) (height img)]
      @ (if \<not> (cur = 0) then blankCalls (Num 0) (Num 0) A4_WIDTH bY else [])
      @ (if \<not> ?isLast
         then blankCalls (Num 0) (bY + ?e) A4_WIDTH (A4_HEIGHT - (bY + ?e)) else [])"
    by (simp add: addImage_def emit_def addBlank_exact)
  have r3: "rasterized ?p3 = rasterized p"
    by (simp add: addImage_def emit_def addBlank_exact)
  obtain p4 where p4: "addHeader html2canvas bX cw header hof (cur = 0) ?p3 = (Inr (), p4)"
    and p4_def: "p4 = ?p3\<lparr>calls := calls ?p3 @ (if cur = 0 \<or> \<not> hof
                                      then headerCalls bX cw ?hio else []),
               rasterized := rasterized ?p3 @ (if cur = 0 then elems header else []),
               cached_header := ?hio\<rparr>"
    using addHeader_exact[OF Cons.prems(1), of ?p3 cur cw bX hof] Cons.prems(4) c3h by simp
  have c4f: "cached_footer p4 = (if cur = 0 \<or> fol then None else ?fio)"
    using p4_def c3f Cons.prems(5) by simp
  obtain p5 where p5: "addFooter html2canvas bX cw footer fol ?isLast p4 = (Inr (), p5)"
    and p5_def: "p5 = p4\<lparr>calls := calls p4 @ (if ?isLast \<or> \<not> fol
                                      then footerCalls bX cw ?fio else []),
               rasterized := rasterized p4 @
                  (if (?isLast \<or> \<not> fol) \<and> (cur = 0 \<or> fol) then elems footer else []),
               cached_footer := (if ?isLast \<or> \<not> fol then ?fio else None)\<rparr>"
    using addFooter_exact[OF Cons.prems(2) c4f, of bX ?isLast] by simp
  let ?p6 = "if \<not> ?isLast then emit AddPage p5 else p5"
  have unfold: "pagesLoop bX bY (addImage img) (addHeader html2canvas bX cw header hof)
           (addFooter html2canvas bX cw footer fol) len (ye # es) cur p =
        pagesLoop bX bY (addImage img) (addHeader html2canvas bX cw header hof)
           (addFooter html2canvas bX cw footer fol) len es (cur + 1) ?p6"
    using p4 p5 by (simp add: Let_def andThen_def)
  have p5_calls: "calls p5 = calls p @ pageCalls img bX bY cw ?hio hof ?fio fol (cur = 0) (es = []) ye"
    using p5_def p4_def calls3 last_iff by (simp add: pageCalls_def)
  have p5_rast: "rasterized p5 = rasterized p @ (if cur = 0 then elems header else [])
        @ (if (es = [] \<or> \<not> fol) \<and> (cur = 0 \<or> fol) then elems footer else [])"
    using p5_def p4_def r3 last_iff by simp
  have p5_h: "cached_header p5 = ?hio"
    using p5_def p4_def by simp
  have p5_f: "cached_footer p5 = (if es = [] \<or> \<not> fol then ?fio else None)"
    using p5_def last_iff by simp
  show ?case
  proof (cases "es = []")
    case True
    have "?p6 = p5" using True last_iff by simp
    moreover have "p5 = p\<lparr>calls := calls p5, rasterized := rasterized p5,
             cached_header := cached_header p5, cached_footer := cached_footer p5\<rparr>"
      using p5_def p4_def by (cases p) (simp add: addImage_def emit_def addBlank_exact)
    ultimately show ?thesis
      using unfold True p5_calls p5_rast p5_h p5_f by simp
  next
    case False
    have p6: "?p6 = emit AddPage p5" using False last_iff by simp
    have ih: "pagesLoop bX bY (addImage img) (addHeader html2canvas bX cw header hof)
           (addFooter html2canvas bX cw footer fol) len es (cur + 1) (emit AddPage p5) =
       (Inr (),
        (emit AddPage p5)\<lparr>calls := calls (emit AddPage p5) @ joinPages (pageList img bX bY cw ?hio hof
                                        ?fio fol es (cur + 1)),
        rasterized := rasterized (emit AddPage p5) @ (if cur + 1 = 0 then elems header else [])
                         @ (if cur + 1 = 0 \<or> fol then elems footer else []),
        cached_header := ?hio, cached_footer := ?fio\<rparr>)"
      using Cons.prems(3) p5_h p5_f False
      by (intro Cons.IH[OF Cons.prems(1) Cons.prems(2)]) (simp_all add: emit_def)
    have join: "joinPages (pageList img bX bY cw ?hio hof ?fio fol (ye # es) cur)
        = pageCalls img bX bY cw ?hio hof ?fio fol (cur = 0) (es = []) ye @ [AddPage]
          @ joinPages (pageList img bX bY cw ?hio hof ?fio fol es (cur + 1))"
      using False by (cases es) simp_all
    have "emit AddPage p5 = p\<lparr>calls := calls p5 @ [AddPage], rasterized := rasterized p5,
             cached_header := cached_header p5, cached_footer := cached_footer p5\<rparr>"
      using p5_def p4_def by (cases p) (simp add: addImage_def emit_def addBlank_exact)
    then show ?thesis
      using unfold p6 ih join p5_calls p5_rast p5_h p5_f False
      by (simp add: emit_def)
  qed
qed

lemma adaptive_as_loop:
  "adaptivePages bX bY aI aH aF len els acc cur p =
   pagesLoop bX bY aI aH aF len (zip (adaptiveOffsets bY acc els) els) cur p"
  by (induction els arbitrary: acc cur p) (simp_all add: Let_def)

lemma fixed_as_loop:
  "fixedPages bX bY aI aH aF ch len [k..<k + m] p =
   pagesLoop bX bY aI aH aF len (map (\<lambda>i. (bY - Num (real i) * ch, ch)) [k..<k + m]) k p"
proof (induction m arbitrary: k p)
  case 0
  show ?case by simp
next
  case (Suc m)
  have upt: "[k..<k + Suc m] = k # [Suc k..<Suc k + m]"
    by (simp add: upt_conv_Cons)
  show ?case
    unfolding upt list.map fixedPages.simps pagesLoop.simps Let_def Suc.IH
    by simp
qed

lemma length_adaptiveOffsets [simp]: "length (adaptiveOffsets bY acc els) = length els"
  by (induction els arbitrary: acc) simp_all

lemma length_adaptiveLayout [simp]: "length (adaptiveLayout bY els) = length els"
  by (simp add: adaptiveLayout_def)

lemma length_fixedLayout [simp]: "length (fixedLayout bY ch n) = n"
  by (simp add: fixedLayout_def)

lemma snd_adaptiveLayout: "i < length els \<Longrightarrow> snd (adaptiveLayout bY els ! i) = els ! i"
  by (simp add: adaptiveLayout_def)

lemma nth_fixedLayout:
  "i < n \<Longrightarrow> fixedLayout bY ch n ! i = (bY - Num (real i) * ch, ch)"
  by (simp add: fixedLayout_def)

lemma loop_run:
  assumes "rasterOK html2canvas header" and "rasterOK html2canvas footer" and "els \<noteq> []"
  shows "adaptivePages bX bY (addImage img)
           (addHeader html2canvas bX cw header hof) (addFooter html2canvas bX cw footer fol)
           (length els) els (Num 0) 0 (new_jsPDF\<lparr>rasterized := rs\<rparr>) =
     (Inr (),
      \<lparr>calls = joinPages (pageList img bX bY cw (bandImage html2canvas cw header) hof
                  (bandImage html2canvas cw footer) fol (adaptiveLayout bY els) 0),
       rasterized = rs @ elems header @ elems footer,
       cached_header = bandImage html2canvas cw header,
       cached_footer = bandImage html2canvas cw footer\<rparr>)"
proof -
  have ne: "zip (adaptiveOffsets bY (Num 0) els) els \<noteq> []"
    using assms(3) by (cases els) simp_all
  show ?thesis
    unfolding adaptive_as_loop adaptiveLayout_def
    by (subst pagesLoop_exact[OF assms(1,2) _ _ _ ne, where cw = cw])
       (simp_all add: new_jsPDF_def)
qed

lemma adaptive_run:
  assumes "rasterOK html2canvas header" and "rasterOK html2canvas footer"
  shows "outputWithAdaptive element cw itemName groupName bX bY (addImage img)
           (addHeader html2canvas bX cw header hof) (addFooter html2canvas bX cw footer fol) ch
           (new_jsPDF\<lparr>rasterized := rs\<rparr>) =
     (Inr (),
      \<lparr>calls = joinPages (pageList img bX bY cw (bandImage html2canvas cw header) hof
                  (bandImage html2canvas cw footer) fol
                  (adaptiveLayout bY (splitElement element cw ch itemName groupName)) 0),
       rasterized = rs @ elems header @ elems footer,
       cached_header = bandImage html2canvas cw header,
       cached_footer = bandImage html2canvas cw footer\<rparr>)"
  unfolding outputWithAdaptive_def Let_def
  by (rule loop_run[OF assms splitElement_nonempty])

lemma fixed_run:
  assumes "rasterOK html2canvas header" and "rasterOK html2canvas footer"
    and "pageNum h ch = Inr n" and "0 < n"
  shows "outputWithFixedSize bX bY h (addImage img)
           (addHeader html2canvas bX cw header hof) (addFooter html2canvas bX cw footer fol) ch
           (new_jsPDF\<lparr>rasterized := rs\<rparr>) =
     (Inr (),
      \<lparr>calls = joinPages (pageList img bX bY cw (bandImage html2canvas cw header) hof
                  (bandImage html2canvas cw footer) fol (fixedLayout bY ch n) 0),
       rasterized = rs @ elems header @ elems footer,
       cached_header = bandImage html2canvas cw header,
       cached_footer = bandImage html2canvas cw footer\<rparr>)"
proof -
  have ne: "map (\<lambda>i. (bY - Num (real i) * ch, ch)) [0..<0 + n] \<noteq> []"
    using assms(4) by simp
  have "fixedPages bX bY (addImage img) (addHeader html2canvas bX cw header hof)
          (addFooter html2canvas bX cw footer fol) ch n [0..<0 + n] (new_jsPDF\<lparr>rasterized := rs\<rparr>)
        = (Inr (),
      \<lparr>calls = joinPages (pageList img bX bY cw (bandImage html2canvas cw header) hof
                  (bandImage html2canvas cw footer) fol (fixedLayout bY ch n) 0),
       rasterized = rs @ elems header @ elems footer,
       cached_header = bandImage html2canvas cw header,
       cached_footer = bandImage html2canvas cw footer\<rparr>)"
    unfolding fixed_as_loop
    by (subst pagesLoop_exact[OF assms(1,2) _ _ _ ne, where cw = cw])
       (simp_all add: new_jsPDF_def fixedLayout_def)
  then show ?thesis
    using assms(3) by (simp add: outputWithFixedSize_def)
qed

section \<open>Pages in the recorded calls\<close>

lemma pagesOf_nonempty: "pagesOf es \<noteq> []"
  by (induction es rule: pagesOf.induct) simp_all

lemma pagesOf_noBreak: "AddPage \<notin> set b \<Longrightarrow> pagesOf b = [b]"
  by (induction b rule: pagesOf.induct) simp_all

lemma pagesOf_append:
  "AddPage \<notin> set b \<Longrightarrow> pagesOf (b @ AddPage # es) = b # pagesOf es"
  by (induction b rule: pagesOf.induct) simp_all

lemma pagesOf_joinPages:
  "bs \<noteq> [] \<Longrightarrow> \<forall>b \<in> set bs. AddPage \<notin> set b \<Longrightarrow> pagesOf (joinPages bs) = bs"
proof (induction bs rule: joinPages.induct)
  case 1
  then show ?case by simp
next
  case (2 b)
  then show ?case by (simp add: pagesOf_noBreak)
next
  case (3 b v va)
  then show ?case by (simp add: pagesOf_append)
qed

lemma pageCalls_noBreak:
  "AddPage \<notin> set (pageCalls img bX bY cw hio hof fio fol isFirst isLast ye)"
  by (simp add: pageCalls_def blankCalls_def headerCalls_def footerCalls_def split: option.splits)

lemma pageList_noBreak:
  "\<forall>b \<in> set (pageList img bX bY cw hio hof fio fol yes cur). AddPage \<notin> set b"
  by (induction yes arbitrary: cur) (simp_all add: pageCalls_noBreak)

lemma length_pageList [simp]:
  "length (pageList img bX bY cw hio hof fio fol yes cur) = length yes"
  by (induction yes arbitrary: cur) simp_all

lemma pageList_nth:
  "i < length yes \<Longrightarrow>
   pageList img bX bY cw hio hof fio fol yes cur ! i =
     pageCalls img bX bY cw hio hof fio fol (cur + i = 0) (Suc i = length yes) (yes ! i)"
proof (induction yes arbitrary: cur i)
  case Nil
  then show ?case by simp
next
  case (Cons ye yes)
  show ?case
  proof (cases i)
    case 0
    then show ?thesis by auto
  next
    case (Suc j)
    then have "j < length yes" using Cons.prems by simp
    from Cons.IH[OF this, of "cur + 1"] Suc show ?thesis
      by simp
  qed
qed

lemma count_joinPages:
  "\<forall>b \<in> set bs. AddPage \<notin> set b \<Longrightarrow>
   length (filter (\<lambda>e. e = AddPage) (joinPages bs)) = length bs - 1"
  by (induction bs rule: joinPages.induct) (auto simp: filter_empty_conv)

lemma map_pageList:
  "map f (pageList img bX bY cw hio hof fio fol yes cur) =
     map (\<lambda>i. f (pageCalls img bX bY cw hio hof fio fol (cur + i = 0) (Suc i = length yes)
                    (yes ! i)))
       [0..<length yes]"
  by (rule nth_equalityI) (simp_all add: pageList_nth)

lemma pages_joinPages_pageList:
  "yes \<noteq> [] \<Longrightarrow>
   pagesOf (joinPages (pageList img bX bY cw hio hof fio fol yes cur)) =
     pageList img bX bY cw hio hof fio fol yes cur"
  by (rule pagesOf_joinPages) (auto simp: pageList_noBreak dest: arg_cong[where f = length])

lemma breaks_joinPages_pageList:
  "length (filter (\<lambda>e. e = AddPage) (joinPages (pageList img bX bY cw hio hof fio fol yes cur)))
     = length yes - 1"
  by (simp add: count_joinPages pageList_noBreak)

lemma adaptiveLayout_nonempty: "els \<noteq> [] \<Longrightarrow> adaptiveLayout bY els \<noteq> []"
  by (cases els) (simp_all add: adaptiveLayout_def)

lemma fixedLayout_nonempty: "0 < n \<Longrightarrow> fixedLayout bY ch n \<noteq> []"
  by (simp add: fixedLayout_def)

section \<open>What a page holds\<close>

lemma rects_append: "rects (a @ b) = rects a @ rects b"
  by (induction a rule: rects.induct) simp_all

lemma content_pageCalls:
  "filter (stampedBy Content) (pageCalls img bX bY cw hio hof fio fol isFirst isLast ye) =
     [AddImage Content (data img) ''JPEG'' bX (fst ye) (width img) (height img)]"
  by (simp add: pageCalls_def blankCalls_def headerCalls_def footerCalls_def split: option.splits)

lemma header_pageCalls:
  "filter (stampedBy Header) (pageCalls img bX bY cw hio hof fio fol isFirst isLast ye) =
     (if isFirst \<or> \<not> hof then headerCalls bX cw hio else [])"
  by (simp add: pageCalls_def blankCalls_def headerCalls_def footerCalls_def split: option.splits)

lemma rects_pageCalls:
  "rects (pageCalls img bX bY cw hio hof fio fol isFirst isLast ye) =
     (if \<not> isFirst then [(Num 0, Num 0, Math_ceil A4_WIDTH, Math_ceil bY)] else [])
     @ (if \<not> isLast
        then [(Num 0, bY + snd ye, Math_ceil A4_WIDTH, Math_ceil (A4_HEIGHT - (bY + snd ye)))]
        else [])"
  by (simp add: pageCalls_def blankCalls_def headerCalls_def footerCalls_def rects_append
      split: option.splits)

lemma rects_pageList_nth:
  "i < length yes \<Longrightarrow>
   rects (pageList img bX bY cw hio hof fio fol yes 0 ! i) =
     (if i = 0 then [] else [(Num 0, Num 0, Math_ceil A4_WIDTH, Math_ceil bY)])
     @ (if Suc i = length yes then []
        else [(Num 0, bY + snd (yes ! i), Math_ceil A4_WIDTH,
               Math_ceil (A4_HEIGHT - (bY + snd (yes ! i))))])"
  by (simp add: pageList_nth rects_pageCalls)

lemma first_only:
  "0 < N \<Longrightarrow> map (\<lambda>i. if i = 0 then (1::nat) else 0) [0..<N] = 1 # replicate (N - 1) 0"
  by (rule nth_equalityI) (auto simp: nth_Cons split: nat.splits)

lemma header_counts:
  assumes "html2canvas el = Inr c" and "yes \<noteq> []"
  shows "map (\<lambda>pg. length (filter (stampedBy Header) pg))
           (pageList img bX bY cw (bandImage html2canvas cw (HTMLElement el)) hof fio fol yes 0)
         = (if hof then 1 # replicate (length yes - 1) 0 else replicate (length yes) 1)"
proof -
  have len: "0 < length yes" using assms(2) by simp
  have "map (\<lambda>pg. length (filter (stampedBy Header) pg))
           (pageList img bX bY cw (bandImage html2canvas cw (HTMLElement el)) hof fio fol yes 0)
        = map (\<lambda>i. if i = 0 \<or> \<not> hof then (1::nat) else 0) [0..<length yes]"
    using assms(1)
    by (simp add: map_pageList header_pageCalls bandImage_def headerCalls_def)
  also have "\<dots> = (if hof then 1 # replicate (length yes - 1) 0 else replicate (length yes) 1)"
    using first_only[OF len] by (simp add: map_replicate_const)
  finally show ?thesis .
qed

lemma content_offsets_fixed:
  "map (filter (stampedBy Content)) (pageList img bX bY cw hio hof fio fol (fixedLayout bY ch n) 0)
     = map (\<lambda>i. [AddImage Content (data img) ''JPEG'' bX (bY - Num (real i) * ch)
                    (width img) (height img)])
         [0..<n]"
  by (simp add: map_pageList content_pageCalls nth_fixedLayout)

lemma stamps_append: "stamps r (a @ b) = stamps r a @ stamps r b"
  by (induction r a rule: stamps.induct) simp_all

lemma stamps_joinPages: "set (stamps r (joinPages bs)) = (\<Union>b \<in> set bs. set (stamps r b))"
  by (induction bs rule: joinPages.induct) (auto simp: stamps_append)

lemma stamps_pageCalls:
  "set (stamps Header (pageCalls img bX bY cw hio hof fio fol isFirst isLast ye))
     \<subseteq> (case hio of None \<Rightarrow> {} | Some i \<Rightarrow> {(data i, height i)})"
  "set (stamps Footer (pageCalls img bX bY cw hio hof fio fol isFirst isLast ye))
     \<subseteq> (case fio of None \<Rightarrow> {} | Some i \<Rightarrow> {(data i, height i)})"
  by (simp_all add: pageCalls_def blankCalls_def headerCalls_def footerCalls_def stamps_append
      split: option.splits)

lemma stamps_pageList:
  "set (stamps Header (joinPages (pageList img bX bY cw hio hof fio fol yes cur)))
     \<subseteq> (case hio of None \<Rightarrow> {} | Some i \<Rightarrow> {(data i, height i)})"
  "set (stamps Footer (joinPages (pageList img bX bY cw hio hof fio fol yes cur)))
     \<subseteq> (case fio of None \<Rightarrow> {} | Some i \<Rightarrow> {(data i, height i)})"
proof -
  have "\<forall>b \<in> set (pageList img bX bY cw hio hof fio fol yes cur).
          set (stamps Header b) \<subseteq> (case hio of None \<Rightarrow> {} | Some i \<Rightarrow> {(data i, height i)})
          \<and> set (stamps Footer b) \<subseteq> (case fio of None \<Rightarrow> {} | Some i \<Rightarrow> {(data i, height i)})"
    by (induction yes arbitrary: cur) (simp_all add: stamps_pageCalls)
  then show
    "set (stamps Header (joinPages (pageList img bX bY cw hio hof fio fol yes cur)))
       \<subseteq> (case hio of None \<Rightarrow> {} | Some i \<Rightarrow> {(data i, height i)})"
    "set (stamps Footer (joinPages (pageList img bX bY cw hio hof fio fol yes cur)))
       \<subseteq> (case fio of None \<Rightarrow> {} | Some i \<Rightarrow> {(data i, height i)})"
    unfolding stamps_joinPages by blast+
qed

lemma stamps_outputCall: "stamps r [outputCall ot fn] = []"
  by (simp add: outputCall_def)

section \<open>The whole call of \<open>outputPdf\<close>\<close>

lemma output2_exact:
  "output2 ot fn p = (fst (output2 ot fn p), p\<lparr>calls := calls p @ [outputCall ot fn]\<rparr>)"
  by (simp add: output2_def outputCall_def emit_def)

lemma outputPdf_run:
  assumes "param_element param = HTMLElement element" and "html2canvas element = Inr c"
    and "rasterOK html2canvas (param_header param)"
    and "rasterOK html2canvas (param_footer param)"
    and "cw = dflt (Num 550) (param_contentWidth param)"
    and "ch = dflt (Num 800) (param_contentHeight param)"
    and "bX = (case param_x param of None \<Rightarrow> (A4_WIDTH - cw) / Num 2 | Some x \<Rightarrow> x)"
    and "bY = (case param_y param of None \<Rightarrow> (A4_HEIGHT - ch) / Num 2 | Some y \<Rightarrow> y)"
    and "img = \<lparr>width = cw, height = (cw / canvas_width c) * canvas_height c, data = toDataURL c\<rparr>"
    and "dflt ''adaptive'' (param_mode param) = ''adaptive'' \<Longrightarrow>
           yes = adaptiveLayout bY
                   (splitElement element cw ch (dflt ''item'' (param_itemName param))
                      (dflt ''group'' (param_groupName param)))"
    and "dflt ''adaptive'' (param_mode param) \<noteq> ''adaptive'' \<Longrightarrow>
           \<exists>n. pageNum (height img) ch = Inr n \<and> 0 < n \<and> yes = fixedLayout bY ch n"
  shows "\<exists>r. outputPdf html2canvas param =
      (Inr r,
       \<lparr>calls = joinPages (pageList img bX bY cw (bandImage html2canvas cw (param_header param))
                  (dflt True (param_headerOnlyFirst param))
                  (bandImage html2canvas cw (param_footer param))
                  (dflt True (param_footerOnlyLast param)) yes 0)
                @ [outputCall (dflt ''save'' (param_outputType param))
                     (dflt ''document.pdf'' (param_filename param))],
        rasterized = [element] @ elems (param_header param) @ elems (param_footer param),
        cached_header = bandImage html2canvas cw (param_header param),
        cached_footer = bandImage html2canvas cw (param_footer param)\<rparr>)"
proof -
  let ?hof = "dflt True (param_headerOnlyFirst param)"
  let ?fol = "dflt True (param_footerOnlyLast param)"
  let ?S = "\<lparr>calls = joinPages (pageList img bX bY cw (bandImage html2canvas cw (param_header param))
                  ?hof (bandImage html2canvas cw (param_footer param)) ?fol yes 0),
        rasterized = [element] @ elems (param_header param) @ elems (param_footer param),
        cached_header = bandImage html2canvas cw (param_header param),
        cached_footer = bandImage html2canvas cw (param_footer param)\<rparr>"
  let ?paginate = "if dflt ''adaptive'' (param_mode param) = ''adaptive''
        then outputWithAdaptive element cw (dflt ''item'' (param_itemName param))
                 (dflt ''group'' (param_groupName param)) bX bY (addImage img)
                 (addHeader html2canvas bX cw (param_header param) ?hof)
                 (addFooter html2canvas bX cw (param_footer param) ?fol) ch
                 (new_jsPDF\<lparr>rasterized := [element]\<rparr>)
        else outputWithFixedSize bX bY (height img) (addImage img)
                 (addHeader html2canvas bX cw (param_header param) ?hof)
                 (addFooter html2canvas bX cw (param_footer param) ?fol) ch
                 (new_jsPDF\<lparr>rasterized := [element]\<rparr>)"
  have tc: "toCanvas html2canvas element cw new_jsPDF = (Inr img, new_jsPDF\<lparr>rasterized := [element]\<rparr>)"
    using assms(2,9) by (simp add: toCanvas_def new_jsPDF_def)
  have eq: "outputPdf html2canvas param =
      andThen ?paginate
        (\<lambda>_ p'. case output2 (dflt ''save'' (param_outputType param))
                         (dflt ''document.pdf'' (param_filename param)) p' of
                    (r, p'') \<Rightarrow> (Inr r, p''))"
    using assms(1) tc
    by (simp add: outputPdf_def Let_def andThen_def assms(5,6,7,8)[symmetric])
  have run: "?paginate = (Inr (), ?S)"
  proof (cases "dflt ''adaptive'' (param_mode param) = ''adaptive''")
    case True
    then show ?thesis
      using adaptive_run[OF assms(3,4), of element cw
          "dflt ''item'' (param_itemName param)" "dflt ''group'' (param_groupName param)"
          bX bY img ?hof ?fol ch "[element]"] assms(10)
      by simp
  next
    case False
    from assms(11)[OF False] obtain n where pn: "pageNum (height img) ch = Inr n"
      and pos: "0 < n" and lay: "yes = fixedLayout bY ch n"
      by blast
    show ?thesis
      using fixed_run[OF assms(3,4) pn pos, of bX bY img cw ?hof ?fol "[element]"] False lay
      by simp
  qed
  show ?thesis
    unfolding eq run
    by (subst output2_exact) (simp add: andThen_def)
qed

section \<open>Blanking rectangles on a page\<close>

lemma adaptive_rects:
  assumes "rasterOK html2canvas header" and "rasterOK html2canvas footer"
    and "i < length (splitElement element cw ch itemName groupName)"
  shows "rects (pagesOf (calls (snd
           (outputWithAdaptive element cw itemName groupName bX bY (addImage img)
              (addHeader html2canvas bX cw header hof) (addFooter html2canvas bX cw footer fol) ch
              (new_jsPDF\<lparr>rasterized := rs\<rparr>)))) ! i) =
     (if i = 0 then [] else [(Num 0, Num 0, Math_ceil A4_WIDTH, Math_ceil bY)])
     @ (if Suc i = length (splitElement element cw ch itemName groupName) then []
        else [(Num 0, bY + splitElement element cw ch itemName groupName ! i, Math_ceil A4_WIDTH,
               Math_ceil (A4_HEIGHT - (bY + splitElement element cw ch itemName groupName ! i)))])"
  unfolding adaptive_run[OF assms(1,2)]
  using assms(3)
  by (simp add: pages_joinPages_pageList[OF adaptiveLayout_nonempty[OF splitElement_nonempty]]
      rects_pageList_nth snd_adaptiveLayout)

lemma fixed_rects:
  assumes "rasterOK html2canvas header" and "rasterOK html2canvas footer"
    and "pageNum h ch = Inr n" and "i < n"
  shows "rects (pagesOf (calls (snd
           (outputWithFixedSize bX bY h (addImage img)
              (addHeader html2canvas bX cw header hof) (addFooter html2canvas bX cw footer fol) ch
              (new_jsPDF\<lparr>rasterized := rs\<rparr>)))) ! i) =
     (if i = 0 then [] else [(Num 0, Num 0, Math_ceil A4_WIDTH, Math_ceil bY)])
     @ (if Suc i = n then []
        else [(Num 0, bY + ch, Math_ceil A4_WIDTH, Math_ceil (A4_HEIGHT - (bY + ch)))])"
proof -
  have n: "0 < n" using assms(4) by simp
  show ?thesis
    unfolding fixed_run[OF assms(1,2,3) n]
    using assms(4)
    by (simp add: pages_joinPages_pageList[OF fixedLayout_nonempty[OF n]]
        rects_pageList_nth nth_fixedLayout)
qed

lemma below_clear:
  assumes "b \<le> y" and "0 \<le> d"
  shows "\<not> overlap (0, y, w', of_int \<lceil>d\<rceil>) (x, b, w, y - b)"
proof -
  have "(0::real) \<le> of_int \<lceil>d\<rceil>"
    using assms(2) by (metis ceiling_mono ceiling_zero of_int_0_le_iff)
  then have "overlapHeight (0, y, w', of_int \<lceil>d\<rceil>) (x, b, w, y - b) = 0"
    using assms(1) by (simp add: overlapHeight_def)
  then show ?thesis
    by (simp add: overlap_def)
qed

lemma above_depth:
  assumes "0 \<le> b" and "b \<le> y"
  shows "overlapHeight (0, 0, w', of_int \<lceil>b\<rceil>) (x, b, w, y - b) < 1"
    and "of_int \<lceil>b\<rceil> = b \<Longrightarrow> \<not> overlap (0, 0, w', of_int \<lceil>b\<rceil>) (x, b, w, y - b)"
proof -
  have c: "b \<le> of_int \<lceil>b\<rceil>" "of_int \<lceil>b\<rceil> < b + 1"
    by linarith+
  have h: "overlapHeight (0, 0, w', of_int \<lceil>b\<rceil>) (x, b, w, y - b) = min (of_int \<lceil>b\<rceil>) y - b"
    using assms c by (simp add: overlapHeight_def)
  show "overlapHeight (0, 0, w', of_int \<lceil>b\<rceil>) (x, b, w, y - b) < 1"
    unfolding h using c by linarith
  show "\<not> overlap (0, 0, w', of_int \<lceil>b\<rceil>) (x, b, w, y - b)" if "of_int \<lceil>b\<rceil> = b"
  proof -
    have "min (real_of_int \<lceil>b\<rceil>) y - b = 0"
      unfolding that using assms(2) by simp
    then have "overlapHeight (0, 0, w', of_int \<lceil>b\<rceil>) (x, b, w, y - b) = 0"
      using h by (simp only:)
    then show ?thesis
      unfolding overlap_def by linarith
  qed
qed

lemma rect_below:
  assumes "bY = Num b" and "bY + e = Num y" and "b \<le> y" and "Num y \<le> A4_HEIGHT"
    and "onPage (Num 0, bY + e, Math_ceil A4_WIDTH, Math_ceil (A4_HEIGHT - (bY + e))) = Some r"
  shows "\<not> overlap r (x, b, w, y - b)"
proof -
  let ?H = "7405342754466693 / 2 ^ 43 :: real"
  have yH: "y \<le> ?H"
    using assms(4) by (simp add: A4_HEIGHT_eq)
  have diff: "A4_HEIGHT - Num y = fl (?H - y)"
    by (simp add: A4_HEIGHT_eq minus_jsnum_def)
  have page: "onPage (Num 0, Num y, Num 593, Math_ceil (fl (?H - y))) = Some r"
    using assms(5) unfolding assms(2) ceil_A4_WIDTH diff .
  obtain d where d: "fl (?H - y) = Num d"
    using page by (cases "fl (?H - y)") simp_all
  have "0 \<le> d"
    using fl_nonneg[OF _ d] yH by simp
  moreover have "r = (0, y, 593, of_int \<lceil>d\<rceil>)"
    using page unfolding d by simp
  ultimately show ?thesis
    using below_clear[OF assms(3)] by simp
qed

lemma rect_above:
  assumes "bY = Num b" and "0 \<le> b" and "b \<le> y"
  shows "onPage (Num 0, Num 0, Math_ceil A4_WIDTH, Math_ceil bY) = Some (0, 0, 593, of_int \<lceil>b\<rceil>)"
    and "overlapHeight (0, 0, 593, of_int \<lceil>b\<rceil>) (x, b, w, y - b) < 1"
    and "of_int \<lceil>b\<rceil> = b \<Longrightarrow> \<not> overlap (0, 0, 593, of_int \<lceil>b\<rceil>) (x, b, w, y - b)"
proof -
  show "onPage (Num 0, Num 0, Math_ceil A4_WIDTH, Math_ceil bY) = Some (0, 0, 593, of_int \<lceil>b\<rceil>)"
    by (simp add: assms(1) ceil_A4_WIDTH)
  show "overlapHeight (0, 0, 593, of_int \<lceil>b\<rceil>) (x, b, w, y - b) < 1"
    by (rule above_depth(1)[OF assms(2,3)])
  show "of_int \<lceil>b\<rceil> = b \<Longrightarrow> \<not> overlap (0, 0, 593, of_int \<lceil>b\<rceil>) (x, b, w, y - b)"
    by (rule above_depth(2)[OF assms(2,3)])
qed

section \<open>Facts about the sample inputs\<close>

lemma item_tags:
  "notNull [''item'' \<mapsto> ''''] ''item''" "\<not> notNull Map.empty ''item''"
  "\<not> notNull Map.empty ''group''" "\<not> notNull [''group'' \<mapsto> ''''] ''item''"
  "notNull [''group'' \<mapsto> ''''] ''group''"
  by (simp_all add: notNull_def Object_prototype_def)

lemma sample_heights:
  "scaledHeights sampleRoot (Num 550) ''item'' ''group'' = [Num 300, Num 600, Num 100]"
  by (simp add: scaledHeights_def sampleRoot_def item300_def item600_def item100_def item_tags
      fl_eval)

lemma sample_split:
  "splitElement sampleRoot (Num 550) (Num 800) ''item'' ''group'' = [Num 300, Num 700]"
  by (simp add: splitElement_fold sample_heights updatePos_def fl_eval)

lemma sample_rasterOK:
  "rasterOK sampleRaster (HTMLElement el)" "rasterOK html2canvas NotElement"
  by (simp_all add: rasterOK_def sampleRaster_def)

lemma sample_pageNum: "pageNum (height sampleImage) (Num 800) = Inr 2"
proof -
  have "\<lceil>(5::real) / 4\<rceil> = 2" by (simp add: ceiling_eq_iff)
  then show ?thesis by (simp add: pageNum_def sampleImage_def fl_eval)
qed

lemma sample_header_canvas:
  "sampleRaster sampleHeader =
     Inr \<lparr>canvas_width = Num 1100, canvas_height = Num 40, toDataURL = ''data:image/jpeg''\<rparr>"
  by (simp add: sampleRaster_def sampleHeader_def)

lemma sample_root_canvas:
  "sampleRaster sampleRoot =
     Inr \<lparr>canvas_width = Num 1100, canvas_height = Num 2000, toDataURL = ''data:image/jpeg''\<rparr>"
  by (simp add: sampleRaster_def sampleRoot_def)

lemma sample_image: "(Num 550 / Num 1100) * Num 2000 = Num 1000"
  by (simp add: fl_eval)

lemma sample_layout:
  "adaptiveLayout defaultBaseY [Num 300, Num 700] =
     [(defaultBaseY, Num 300), (Num (- (4909187476624507 / 2 ^ 44)), Num 700)]"
  by (simp add: adaptiveLayout_def defaultBaseY_eq minus_jsnum_def fl_eval)

lemma sample_below:
  "defaultBaseY + Num 300 = Num (5646124150025093 / 2 ^ 44)"
  "Math_ceil (A4_HEIGHT - (defaultBaseY + Num 300)) = Num 521"
  "Math_ceil defaultBaseY = Num 21"
proof -
  show sum: "defaultBaseY + Num 300 = Num (5646124150025093 / 2 ^ 44)"
    by (simp add: defaultBaseY_eq fl_eval)
  have d: "A4_HEIGHT - (defaultBaseY + Num 300) = Num (2291140339727073 / 2 ^ 42)"
    unfolding sum by (simp add: A4_HEIGHT_eq minus_jsnum_def fl_eval)
  have "\<lceil>(2291140339727073::real) / 2 ^ 42\<rceil> = 521"
    by (simp add: ceiling_eq_iff)
  then show "Math_ceil (A4_HEIGHT - (defaultBaseY + Num 300)) = Num 521"
    unfolding d by simp
  have "\<lceil>(368468336700293::real) / 2 ^ 44\<rceil> = 21"
    by (simp add: ceiling_eq_iff)
  then show "Math_ceil defaultBaseY = Num 21"
    by (simp add: defaultBaseY_eq)
qed

lemma sample_blanks:
  "blankCalls (Num 0) (defaultBaseY + Num 300) A4_WIDTH (A4_HEIGHT - (defaultBaseY + Num 300))
     = [SetFillColor 255 255 255,
        Rect (Num 0) (Num (5646124150025093 / 2 ^ 44)) (Num 593) (Num 521) ''F'']"
  "blankCalls (Num 0) (Num 0) A4_WIDTH defaultBaseY
     = [SetFillColor 255 255 255, Rect (Num 0) (Num 0) (Num 593) (Num 21) ''F'']"
  unfolding blankCalls_def sample_below(2,3) ceil_A4_WIDTH
  unfolding sample_below(1)
  by simp_all

lemma default_calls:
  "calls (snd (outputPdf sampleRaster (sampleParam (HTMLElement sampleRoot) NotElement NotElement)))
   = [AddImage Content ''data:image/jpeg'' ''JPEG'' defaultBaseX defaultBaseY (Num 550) (Num 1000),
      SetFillColor 255 255 255,
      Rect (Num 0) (Num (5646124150025093 / 2 ^ 44)) (Num 593) (Num 521) ''F'',
      AddPage,
      AddImage Content ''data:image/jpeg'' ''JPEG'' defaultBaseX
        (Num (- (4909187476624507 / 2 ^ 44))) (Num 550) (Num 1000),
      SetFillColor 255 255 255, Rect (Num 0) (Num 0) (Num 593) (Num 21) ''F'',
      Save ''document.pdf'']"
proof -
  let ?P = "sampleParam (HTMLElement sampleRoot) NotElement NotElement"
  from outputPdf_run[where param = ?P and html2canvas = sampleRaster and element = sampleRoot
      and cw = "Num 550" and ch = "Num 800" and bX = defaultBaseX and bY = defaultBaseY
      and img = sampleImage and yes = "adaptiveLayout defaultBaseY [Num 300, Num 700]",
      OF _ sample_root_canvas]
  obtain r where "outputPdf sampleRaster ?P =
      (Inr r,
       \<lparr>calls = joinPages (pageList sampleImage defaultBaseX defaultBaseY (Num 550)
                  (bandImage sampleRaster (Num 550) (param_header ?P))
                  (dflt True (param_headerOnlyFirst ?P))
                  (bandImage sampleRaster (Num 550) (param_footer ?P))
                  (dflt True (param_footerOnlyLast ?P))
                  (adaptiveLayout defaultBaseY [Num 300, Num 700]) 0)
                @ [outputCall (dflt ''save'' (param_outputType ?P))
                     (dflt ''document.pdf'' (param_filename ?P))],
        rasterized = [sampleRoot] @ elems (param_header ?P) @ elems (param_footer ?P),
        cached_header = bandImage sampleRaster (Num 550) (param_header ?P),
        cached_footer = bandImage sampleRaster (Num 550) (param_footer ?P)\<rparr>)"
    by (auto simp: sampleParam_def dflt_def sample_rasterOK defaultBaseX_def defaultBaseY_def
        sampleImage_def sample_split fl_eval)
  then show ?thesis
    by (simp add: sampleParam_def dflt_def bandImage_def pageCalls_def sample_blanks
        headerCalls_def footerCalls_def outputCall_def sampleImage_def sample_layout)
qed

lemma sample_bands:
  "fl (1 / 2) = Num (1 / 2)" "fl 20 = Num 20" "fl 15 = Num 15"
  "A4_HEIGHT - Num 15 = Num (7273401359133573 / 2 ^ 43)"
  by (simp_all add: A4_HEIGHT_eq minus_jsnum_def fl_eval)

lemma repeat_calls:
  "calls (snd (outputPdf sampleRaster repeatParam))
   = [AddImage Content ''data:image/jpeg'' ''JPEG'' defaultBaseX defaultBaseY (Num 550) (Num 1000),
      SetFillColor 255 255 255,
      Rect (Num 0) (Num (5646124150025093 / 2 ^ 44)) (Num 593) (Num 521) ''F'',
      AddImage Header ''data:image/jpeg'' ''JPEG'' defaultBaseX (Num 0) (Num 550) (Num 20),
      AddImage Footer ''data:image/jpeg'' ''JPEG'' defaultBaseX
        (Num (7273401359133573 / 2 ^ 43)) (Num 550) (Num 15),
      AddPage,
      AddImage Content ''data:image/jpeg'' ''JPEG'' defaultBaseX
        (Num (- (4909187476624507 / 2 ^ 44))) (Num 550) (Num 1000),
      SetFillColor 255 255 255, Rect (Num 0) (Num 0) (Num 593) (Num 21) ''F'',
      AddImage Header ''data:image/jpeg'' ''JPEG'' defaultBaseX (Num 0) (Num 550) (Num 20),
      AddImage Footer ''data:image/jpeg'' ''JPEG'' defaultBaseX
        (Num (7273401359133573 / 2 ^ 43)) (Num 550) (Num 15),
      Save ''document.pdf'']"
proof -
  from outputPdf_run[where param = repeatParam and html2canvas = sampleRaster
      and element = sampleRoot and cw = "Num 550" and ch = "Num 800" and bX = defaultBaseX
      and bY = defaultBaseY and img = sampleImage
      and yes = "adaptiveLayout defaultBaseY [Num 300, Num 700]", OF _ sample_root_canvas]
  obtain r where "outputPdf sampleRaster repeatParam =
      (Inr r,
       \<lparr>calls = joinPages (pageList sampleImage defaultBaseX defaultBaseY (Num 550)
                  (bandImage sampleRaster (Num 550) (param_header repeatParam))
                  (dflt True (param_headerOnlyFirst repeatParam))
                  (bandImage sampleRaster (Num 550) (param_footer repeatParam))
                  (dflt True (param_footerOnlyLast repeatParam))
                  (adaptiveLayout defaultBaseY [Num 300, Num 700]) 0)
                @ [outputCall (dflt ''save'' (param_outputType repeatParam))
                     (dflt ''document.pdf'' (param_filename repeatParam))],
        rasterized = [sampleRoot] @ elems (param_header repeatParam)
                       @ elems (param_footer repeatParam),
        cached_header = bandImage sampleRaster (Num 550) (param_header repeatParam),
        cached_footer = bandImage sampleRaster (Num 550) (param_footer repeatParam)\<rparr>)"
    by (auto simp: repeatParam_def sampleParam_def dflt_def sample_rasterOK defaultBaseX_def
        defaultBaseY_def sampleImage_def sample_split fl_eval)
  then show ?thesis
    by (simp add: repeatParam_def sampleParam_def dflt_def bandImage_def pageCalls_def
        sample_blanks headerCalls_def footerCalls_def outputCall_def sampleImage_def
        sample_layout sample_bands sampleRaster_def sampleHeader_def sampleFooter_def)
qed

lemma fixed_length:
  assumes "rasterOK html2canvas header" and "rasterOK html2canvas footer"
    and "pageNum h ch = Inr n" and "0 < n"
  shows "length (pagesOf (calls (snd (outputWithFixedSize bX bY h (addImage img)
           (addHeader html2canvas bX cw header hof) (addFooter html2canvas bX cw footer fol) ch
           (new_jsPDF\<lparr>rasterized := rs\<rparr>))))) = n"
  unfolding fixed_run[OF assms]
  by (simp add: pages_joinPages_pageList[OF fixedLayout_nonempty[OF assms(4)]])

lemma tiny_contentHeight: "fl (1 / 10 ^ 7) = Num (7555786372591432 / 2 ^ 76)"
  by (simp add: fl_eval)

lemma tiny_pageNum: "pageNum (Num 1000) (fl (1 / 10 ^ 7)) = Inl RangeError"
proof -
  have "Num 1000 / Num (7555786372591432 / 2 ^ 76) = Num 10000000000"
    by (simp add: fl_eval)
  then show ?thesis
    unfolding pageNum_def tiny_contentHeight by simp
qed

lemma third_contentHeight: "fl 333.3333333333333 = Num (5864062014805333 / 2 ^ 44)"
  by (simp add: fl_eval)

lemma third_quotient: "Num 1000 / Num (5864062014805333 / 2 ^ 44) = Num 3"
  by (simp add: fl_eval)

lemma third_pageNum: "pageNum (Num 1000) (fl 333.3333333333333) = Inr 3"
  unfolding third_contentHeight pageNum_def third_quotient by simp

lemma third_exact: "\<lceil>(1000::real) / (5864062014805333 / 2 ^ 44)\<rceil> = 4"
  by (simp add: ceiling_eq_iff)

lemma tall_quotient: "Num 2000 / Num 800 = Num (5 / 2)" "\<lceil>(5::real) / 2\<rceil> = 3"
  by (simp_all add: fl_eval ceiling_eq_iff)

section \<open>The claims about the layout scanner\<close>

text \<open>
  C2, as the code adds. For every tree of layout nodes and every \<open>contentWidth\<close> and
  \<open>contentHeight\<close>, the sequence that \<open>splitElement\<close> returns divides the scaled
  heights of the Item nodes met by the traversal, in document order, into consecutive
  runs, one for each entry and none of them empty but possibly the first. Every entry is
  the sum of its run, added from left to right in double precision: the first entry
  starts from 0, every other from the first height of its run. So every item is counted
  in exactly one entry.
\<close>

theorem splitElement_sum:
  "\<exists>first rest.
      scaledHeights element contentWidth itemName groupName = first @ concat rest
      \<and> [] \<notin> set rest
      \<and> splitElement element contentWidth contentHeight itemName groupName
          = sumFromZero first # map runSum rest"
  using fold_runs[of "scaledHeights element contentWidth itemName groupName"
      contentHeight "[]" "Num 0"]
  by (simp add: splitElement_fold Let_def sumFromZero_def)

text \<open>
  The claim as the specification states it fails for \<open>roundingRoot\<close> at the content
  width 550 and \<open>contentHeight = 300\<close>. The second and the third item share a page,
  and the sum of their scaled heights is rounded: the two entries add up to more than
  the three scaled heights, whether the sums are exact or in double precision.
\<close>

theorem splitElement_sum_rounds:
  "scaledHeights roundingRoot (Num 550) ''item'' ''group''
     = [Num (165 / 2), Num (7740561859543041 / 2 ^ 45), Num (7740561859543041 / 2 ^ 47)]
   \<and> splitElement roundingRoot (Num 550) (Num 300) ''item'' ''group''
     = [Num (165 / 2), Num (4837851162214401 / 2 ^ 44)]
   \<and> (165 / 2 + 4837851162214401 / 2 ^ 44 :: real)
       \<noteq> 165 / 2 + 7740561859543041 / 2 ^ 45 + 7740561859543041 / 2 ^ 47
   \<and> sumFromZero (splitElement roundingRoot (Num 550) (Num 300) ''item'' ''group'')
       = Num (6289206510878721 / 2 ^ 44)
   \<and> sumFromZero (scaledHeights roundingRoot (Num 550) ''item'' ''group'') = Num (715 / 2)
   \<and> (6289206510878721 / 2 ^ 44 :: real) \<noteq> 715 / 2"
proof -
  have hs: "scaledHeights roundingRoot (Num 550) ''item'' ''group''
     = [Num (165 / 2), Num (7740561859543041 / 2 ^ 45), Num (7740561859543041 / 2 ^ 47)]"
    by (simp add: scaledHeights_def roundingRoot_def item_tags fl_eval)
  have es: "splitElement roundingRoot (Num 550) (Num 300) ''item'' ''group''
     = [Num (165 / 2), Num (4837851162214401 / 2 ^ 44)]"
    unfolding splitElement_fold hs by (simp add: updatePos_def fl_eval)
  have t1: "sumFromZero [Num (165 / 2), Num (4837851162214401 / 2 ^ 44)]
              = Num (6289206510878721 / 2 ^ 44)"
    by (simp add: sumFromZero_def fl_eval)
  have t2: "sumFromZero [Num (165 / 2), Num (7740561859543041 / 2 ^ 45),
                   Num (7740561859543041 / 2 ^ 47)] = Num (715 / 2)"
    by (simp add: sumFromZero_def fl_eval)
  have ne1: "(165 / 2 + 4837851162214401 / 2 ^ 44 :: real)
       \<noteq> 165 / 2 + 7740561859543041 / 2 ^ 45 + 7740561859543041 / 2 ^ 47"
    by simp
  have ne2: "(6289206510878721 / 2 ^ 44 :: real) \<noteq> 715 / 2"
    by simp
  show ?thesis
    unfolding es hs t1 t2 using ne1 ne2 by simp
qed

text \<open>
  C3. Three items with the scaled heights 300, 600 and 100, in document order, and
  \<open>contentHeight = 800\<close> give exactly the break sequence \<open>[300, 700]\<close>.
\<close>

theorem splitElement_example:
  assumes "scaledHeights element contentWidth itemName groupName = [Num 300, Num 600, Num 100]"
  shows "splitElement element contentWidth (Num 800) itemName groupName = [Num 300, Num 700]"
  using assms by (simp add: splitElement_fold updatePos_def fl_eval)

theorem splitElement_example_witness:
  "scaledHeights sampleRoot (Num 550) ''item'' ''group'' = [Num 300, Num 600, Num 100]
   \<and> splitElement sampleRoot (Num 550) (Num 800) ''item'' ''group'' = [Num 300, Num 700]"
  using splitElement_example[OF sample_heights] sample_heights by simp

text \<open>
  C4, for scaled heights that are numbers. When \<open>contentHeight\<close> is not negative, as
  its documented range 0 to 841.89 has it, and none of the scaled item heights is
  \<open>NaN\<close>, every entry of the sequence that \<open>splitElement\<close> returns is at most
  \<open>contentHeight\<close>, unless it is the scaled height of a single item that alone exceeds
  \<open>contentHeight\<close>; and an item that exactly fills the remaining space, the sum
  \<open>pos + h\<close> of the code being \<open>contentHeight\<close>, stays on the current page: \<open>pos\<close>
  becomes \<open>contentHeight\<close> and nothing is pushed. The heights are those that the code
  computes, rounded twice; they may have any sign and may be infinite.
\<close>

theorem splitElement_bound:
  assumes "Num 0 \<le> contentHeight"
    and "NaN \<notin> set (scaledHeights element contentWidth itemName groupName)"
  shows "(\<forall>e \<in> set (splitElement element contentWidth contentHeight itemName groupName).
            e \<le> contentHeight
            \<or> (contentHeight < e \<and> e \<in> set (scaledHeights element contentWidth itemName groupName)))
         \<and> (\<forall>s h. pos s + h = contentHeight \<longrightarrow>
               updatePos contentHeight h s = s\<lparr>pos := contentHeight\<rparr>)"
proof
  let ?hs = "scaledHeights element contentWidth itemName groupName"
  let ?s0 = "\<lparr>res = [], pos = Num 0\<rparr>"
  have ch: "contentHeight \<noteq> NaN"
    using le_not_NaN[OF assms(1)] by simp
  have init: "\<forall>e \<in> set (res ?s0) \<union> {pos ?s0}. e \<le> contentHeight \<or> e \<in> set ?hs"
    using assms(1) by simp
  have inv: "\<forall>e \<in> set (splitElement element contentWidth contentHeight itemName groupName).
          e \<le> contentHeight \<or> e \<in> set ?hs"
    using fold_bound[OF init subset_refl]
    by (simp add: splitElement_fold Let_def)
  show "\<forall>e \<in> set (splitElement element contentWidth contentHeight itemName groupName).
            e \<le> contentHeight \<or> (contentHeight < e \<and> e \<in> set ?hs)"
  proof
    fix e
    assume "e \<in> set (splitElement element contentWidth contentHeight itemName groupName)"
    with inv have e: "e \<le> contentHeight \<or> e \<in> set ?hs"
      by blast
    show "e \<le> contentHeight \<or> (contentHeight < e \<and> e \<in> set ?hs)"
    proof (cases "e \<le> contentHeight")
      case True
      then show ?thesis by simp
    next
      case False
      with e have mem: "e \<in> set ?hs" by simp
      then have "e \<noteq> NaN" using assms(2) by auto
      from not_NaN_le[OF this ch False] mem show ?thesis by simp
    qed
  qed
  show "\<forall>s h. pos s + h = contentHeight \<longrightarrow>
               updatePos contentHeight h s = s\<lparr>pos := contentHeight\<rparr>"
    using le_refl_jsnum[OF ch] by (simp add: updatePos_def)
qed

theorem splitElement_bound_witness:
  "Num 0 \<le> Num 500
   \<and> scaledHeights sampleRoot (Num 550) ''item'' ''group'' = [Num 300, Num 600, Num 100]
   \<and> NaN \<notin> set [Num 300, Num 600, Num 100]
   \<and> splitElement sampleRoot (Num 550) (Num 500) ''item'' ''group'' = [Num 300, Num 600, Num 100]
   \<and> Num 300 \<le> Num 500 \<and> Num 500 < Num 600
   \<and> Num 600 \<in> set (scaledHeights sampleRoot (Num 550) ''item'' ''group'')
   \<and> Num 300 + Num 200 = Num 500
   \<and> updatePos (Num 500) (Num 200) \<lparr>res = [], pos = Num 300\<rparr> = \<lparr>res = [], pos = Num 500\<rparr>
   \<and> Num 0 \<le> Num 55
   \<and> scaledHeights tieRoot (Num 550) ''item'' ''group'' = [Num (7740561859543041 / 2 ^ 47)]
   \<and> splitElement tieRoot (Num 550) (Num 55) ''item'' ''group''
       = [Num 0, Num (7740561859543041 / 2 ^ 47)]
   \<and> Num 55 < Num (7740561859543041 / 2 ^ 47)"
proof -
  have ge: "Num 0 \<le> Num 500" by simp
  have nn: "NaN \<notin> set (scaledHeights sampleRoot (Num 550) ''item'' ''group'')"
    by (simp add: sample_heights)
  have run: "splitElement sampleRoot (Num 550) (Num 500) ''item'' ''group''
               = [Num 300, Num 600, Num 100]"
    by (simp add: splitElement_fold sample_heights updatePos_def fl_eval)
  have sum: "Num 300 + Num 200 = Num 500"
    by (simp add: fl_eval)
  have tie: "updatePos (Num 500) (Num 200) \<lparr>res = [], pos = Num 300\<rparr> = \<lparr>res = [], pos = Num 500\<rparr>"
    using splitElement_bound[OF ge nn] sum
    by (simp del: plus_jsnum.simps)
  have ge2: "Num 0 \<le> Num 55" by simp
  have hs2: "scaledHeights tieRoot (Num 550) ''item'' ''group''
               = [Num (7740561859543041 / 2 ^ 47)]"
    by (simp add: scaledHeights_def tieRoot_def item_tags fl_eval)
  have nn2: "NaN \<notin> set (scaledHeights tieRoot (Num 550) ''item'' ''group'')"
    unfolding hs2 by simp
  have run2: "splitElement tieRoot (Num 550) (Num 55) ''item'' ''group''
               = [Num 0, Num (7740561859543041 / 2 ^ 47)]"
    unfolding splitElement_fold hs2 by (simp add: updatePos_def fl_eval)
  have "Num (7740561859543041 / 2 ^ 47) \<le> Num 55
        \<or> Num 55 < Num (7740561859543041 / 2 ^ 47)"
    using splitElement_bound[OF ge2 nn2] unfolding run2 by simp
  then have above: "Num 55 < Num (7740561859543041 / 2 ^ 47)"
    by simp
  have first: "Num 0 \<le> Num 500
   \<and> scaledHeights sampleRoot (Num 550) ''item'' ''group'' = [Num 300, Num 600, Num 100]
   \<and> NaN \<notin> set [Num 300, Num 600, Num 100]
   \<and> splitElement sampleRoot (Num 550) (Num 500) ''item'' ''group'' = [Num 300, Num 600, Num 100]
   \<and> Num 300 \<le> Num 500 \<and> Num 500 < Num 600
   \<and> Num 600 \<in> set (scaledHeights sampleRoot (Num 550) ''item'' ''group'')"
    using ge nn run by (simp add: sample_heights less_jsnum_def)
  show ?thesis
    using first sum tie ge2 hs2 run2 above by simp
qed

text \<open>
  The claim as the specification states it, for every tree with item heights that are not
  negative, fails for a root without layout: its width is 0 and the height of its item
  is 0, so that the scale factor is \<open>550 / 0 = Infinity\<close> and the scaled height
  \<open>Infinity * 0 = NaN\<close>. The scan, with the default \<open>contentHeight\<close>, returns the
  entry \<open>NaN\<close>, which is not at most \<open>contentHeight\<close> and does not exceed it either.
\<close>

theorem splitElement_flat:
  "offsetWidth flatRoot = Num 0
   \<and> map offsetHeight (itemsOf ''item'' ''group'' (childNodes flatRoot)) = [Num 0]
   \<and> Num 0 \<le> Num 0 \<and> Num 0 \<le> Num 800
   \<and> scaledHeights flatRoot (Num 550) ''item'' ''group'' = [NaN]
   \<and> splitElement flatRoot (Num 550) (Num 800) ''item'' ''group'' = [Num 0, NaN]
   \<and> \<not> NaN \<le> Num 800 \<and> \<not> Num 800 < NaN"
proof -
  have hs: "scaledHeights flatRoot (Num 550) ''item'' ''group'' = [NaN]"
    by (simp add: scaledHeights_def flatRoot_def item_tags)
  have "splitElement flatRoot (Num 550) (Num 800) ''item'' ''group'' = [Num 0, NaN]"
    by (simp add: splitElement_fold hs updatePos_def)
  then show ?thesis
    using hs by (simp add: flatRoot_def item_tags less_jsnum_def)
qed

section \<open>The claims about the page compositor\<close>

text \<open>
  The theorems of this section run the two pagination functions as \<open>outputPdf\<close> calls
  them: with its three closures, on the jsPDF instance it has just created and used to
  rasterize the root element. The header and the footer are values on which
  \<open>html2canvas\<close> does not reject, so that the run completes.
\<close>

text \<open>
  C1, as the code has it. On page \<open>i\<close> of \<open>N\<close> the blanking rectangles are exactly
  these: on a page that is not the first, the rectangle \<open>(0, 0, \<lceil>W\<rceil>, \<lceil>baseY\<rceil>)\<close> above
  the content band, and on a page that is not the last, the rectangle
  \<open>(0, baseY + entryHeight, \<lceil>W\<rceil>, \<lceil>H - (baseY + entryHeight)\<rceil>)\<close> below it, where
  \<open>entryHeight\<close> is the page's entry of the break sequence in adaptive mode and
  \<open>contentHeight\<close> in fixed mode, and the sum and the difference are the doubles that
  the code computes. The band reaches from \<open>baseY\<close> down to this sum, which is not
  above \<open>baseY\<close>. The rectangle below, when its four numbers are finite, starts at the
  lower edge of the band, and it does not overlap the band when that edge is on the
  page. The rectangle above has its height rounded up by \<open>Math.ceil\<close> and ends at
  \<open>\<lceil>baseY\<rceil>\<close>: when \<open>baseY\<close> is not negative it overlaps the band by less than one
  unit, and not at all when \<open>baseY\<close> is an integer.
\<close>

theorem blank_rects:
  assumes "rasterOK html2canvas header" and "rasterOK html2canvas footer"
  shows
    "(\<exists>p'. outputWithAdaptive element cw itemName groupName bX bY (addImage img)
             (addHeader html2canvas bX cw header hof) (addFooter html2canvas bX cw footer fol) ch
             (new_jsPDF\<lparr>rasterized := [element]\<rparr>) = (Inr (), p')
         \<and> (\<forall>i < length (splitElement element cw ch itemName groupName).
               rects (pagesOf (calls p') ! i) =
                 (if i = 0 then [] else [(Num 0, Num 0, Math_ceil A4_WIDTH, Math_ceil bY)])
                 @ (if Suc i = length (splitElement element cw ch itemName groupName) then []
                    else [(Num 0, bY + splitElement element cw ch itemName groupName ! i,
                           Math_ceil A4_WIDTH,
                           Math_ceil (A4_HEIGHT
                                    - (bY + splitElement element cw ch itemName groupName ! i)))])))
     \<and> (pageNum (height img) ch = Inr n \<and> 0 < n \<longrightarrow>
         (\<exists>p'. outputWithFixedSize bX bY (height img) (addImage img)
             (addHeader html2canvas bX cw header hof) (addFooter html2canvas bX cw footer fol) ch
             (new_jsPDF\<lparr>rasterized := [element]\<rparr>) = (Inr (), p')
         \<and> (\<forall>i < n.
               rects (pagesOf (calls p') ! i) =
                 (if i = 0 then [] else [(Num 0, Num 0, Math_ceil A4_WIDTH, Math_ceil bY)])
                 @ (if Suc i = n then []
                    else [(Num 0, bY + ch, Math_ceil A4_WIDTH,
                           Math_ceil (A4_HEIGHT - (bY + ch)))]))))
     \<and> (bY = Num b \<and> bY + e = Num y \<and> b \<le> y \<and> Num y \<le> A4_HEIGHT
          \<and> onPage (Num 0, bY + e, Math_ceil A4_WIDTH, Math_ceil (A4_HEIGHT - (bY + e))) = Some r
        \<longrightarrow> \<not> overlap r (x, b, w, y - b))
     \<and> (bY = Num b \<and> 0 \<le> b \<and> b \<le> y \<longrightarrow>
          onPage (Num 0, Num 0, Math_ceil A4_WIDTH, Math_ceil bY) = Some (0, 0, 593, of_int \<lceil>b\<rceil>)
          \<and> overlapHeight (0, 0, 593, of_int \<lceil>b\<rceil>) (x, b, w, y - b) < 1
          \<and> (of_int \<lceil>b\<rceil> = b \<longrightarrow> \<not> overlap (0, 0, 593, of_int \<lceil>b\<rceil>) (x, b, w, y - b)))"
proof (intro conjI impI)
  let ?els = "splitElement element cw ch itemName groupName"
  have ne: "adaptiveLayout bY ?els \<noteq> []"
    by (rule adaptiveLayout_nonempty[OF splitElement_nonempty])
  show "\<exists>p'. outputWithAdaptive element cw itemName groupName bX bY (addImage img)
             (addHeader html2canvas bX cw header hof) (addFooter html2canvas bX cw footer fol) ch
             (new_jsPDF\<lparr>rasterized := [element]\<rparr>) = (Inr (), p')
         \<and> (\<forall>i < length ?els.
               rects (pagesOf (calls p') ! i) =
                 (if i = 0 then [] else [(Num 0, Num 0, Math_ceil A4_WIDTH, Math_ceil bY)])
                 @ (if Suc i = length ?els then []
                    else [(Num 0, bY + ?els ! i, Math_ceil A4_WIDTH,
                           Math_ceil (A4_HEIGHT - (bY + ?els ! i)))]))"
    unfolding adaptive_run[OF assms]
    by (simp add: pages_joinPages_pageList[OF ne] rects_pageList_nth snd_adaptiveLayout)
next
  assume "pageNum (height img) ch = Inr n \<and> 0 < n"
  then have pn: "pageNum (height img) ch = Inr n" and n: "0 < n" by simp_all
  show "\<exists>p'. outputWithFixedSize bX bY (height img) (addImage img)
             (addHeader html2canvas bX cw header hof) (addFooter html2canvas bX cw footer fol) ch
             (new_jsPDF\<lparr>rasterized := [element]\<rparr>) = (Inr (), p')
         \<and> (\<forall>i < n.
               rects (pagesOf (calls p') ! i) =
                 (if i = 0 then [] else [(Num 0, Num 0, Math_ceil A4_WIDTH, Math_ceil bY)])
                 @ (if Suc i = n then []
                    else [(Num 0, bY + ch, Math_ceil A4_WIDTH,
                           Math_ceil (A4_HEIGHT - (bY + ch)))]))"
    unfolding fixed_run[OF assms pn n]
    by (simp add: pages_joinPages_pageList[OF fixedLayout_nonempty[OF n]]
        rects_pageList_nth nth_fixedLayout)
next
  assume a: "bY = Num b \<and> bY + e = Num y \<and> b \<le> y \<and> Num y \<le> A4_HEIGHT
          \<and> onPage (Num 0, bY + e, Math_ceil A4_WIDTH, Math_ceil (A4_HEIGHT - (bY + e))) = Some r"
  then have a1: "bY = Num b" and a2: "bY + e = Num y" and a3: "b \<le> y"
    and a4: "Num y \<le> A4_HEIGHT"
    and a5: "onPage (Num 0, bY + e, Math_ceil A4_WIDTH, Math_ceil (A4_HEIGHT - (bY + e))) = Some r"
    by blast+
  show "\<not> overlap r (x, b, w, y - b)"
    by (rule rect_below[OF a1 a2 a3 a4 a5])
next
  assume a: "bY = Num b \<and> 0 \<le> b \<and> b \<le> y"
  then have a1: "bY = Num b" and a2: "0 \<le> b" and a3: "b \<le> y"
    by blast+
  show "onPage (Num 0, Num 0, Math_ceil A4_WIDTH, Math_ceil bY) = Some (0, 0, 593, of_int \<lceil>b\<rceil>)"
    by (rule rect_above(1)[OF a1 a2 a3])
  show "overlapHeight (0, 0, 593, of_int \<lceil>b\<rceil>) (x, b, w, y - b) < 1"
    by (rule rect_above(2)[OF a1 a2 a3])
  assume "of_int \<lceil>b\<rceil> = b"
  then show "\<not> overlap (0, 0, 593, of_int \<lceil>b\<rceil>) (x, b, w, y - b)"
    by (rule rect_above(3)[OF a1 a2 a3])
qed

theorem blank_rects_witness:
  "rasterOK sampleRaster NotElement
   \<and> pageNum (height sampleImage) (Num 800) = Inr 2 \<and> (0::nat) < 2
   \<and> rects (pagesOf (calls (snd
        (outputWithAdaptive sampleRoot (Num 550) ''item'' ''group'' defaultBaseX defaultBaseY
           (addImage sampleImage)
           (addHeader sampleRaster defaultBaseX (Num 550) NotElement True)
           (addFooter sampleRaster defaultBaseX (Num 550) NotElement True) (Num 800)
           (new_jsPDF\<lparr>rasterized := [sampleRoot]\<rparr>)))) ! 0)
       = [(Num 0, Num (5646124150025093 / 2 ^ 44), Num 593, Num 521)]
   \<and> rects (pagesOf (calls (snd
        (outputWithFixedSize defaultBaseX defaultBaseY (height sampleImage) (addImage sampleImage)
           (addHeader sampleRaster defaultBaseX (Num 550) NotElement True)
           (addFooter sampleRaster defaultBaseX (Num 550) NotElement True) (Num 800)
           (new_jsPDF\<lparr>rasterized := [sampleRoot]\<rparr>)))) ! 1)
       = [(Num 0, Num 0, Num 593, Num 21)]
   \<and> defaultBaseY = Num (368468336700293 / 2 ^ 44)
   \<and> defaultBaseY + Num 300 = Num (5646124150025093 / 2 ^ 44)
   \<and> (368468336700293 / 2 ^ 44 :: real) \<le> 5646124150025093 / 2 ^ 44
   \<and> Num (5646124150025093 / 2 ^ 44) \<le> A4_HEIGHT
   \<and> onPage (Num 0, defaultBaseY + Num 300, Math_ceil A4_WIDTH,
             Math_ceil (A4_HEIGHT - (defaultBaseY + Num 300)))
       = Some (0, 5646124150025093 / 2 ^ 44, 593, 521)
   \<and> \<not> overlap (0, 5646124150025093 / 2 ^ 44, 593, 521)
         (185949406489477 / 2 ^ 43, 368468336700293 / 2 ^ 44, 550,
          5646124150025093 / 2 ^ 44 - 368468336700293 / 2 ^ 44)
   \<and> (0::real) \<le> 368468336700293 / 2 ^ 44
   \<and> overlapHeight (0, 0, 593, 21)
         (185949406489477 / 2 ^ 43, 368468336700293 / 2 ^ 44, 550,
          5646124150025093 / 2 ^ 44 - 368468336700293 / 2 ^ 44) < 1
   \<and> real_of_int \<lceil>21::real\<rceil> = 21
   \<and> \<not> overlap (0, 0, 593, 21) (185949406489477 / 2 ^ 43, 21, 550, 321 - 21)"
proof -
  let ?b = "368468336700293 / 2 ^ 44 :: real"
  let ?y = "5646124150025093 / 2 ^ 44 :: real"
  let ?x = "185949406489477 / 2 ^ 43 :: real"
  have r: "rasterOK sampleRaster NotElement"
    by (rule sample_rasterOK)
  have two: "(0::nat) < 2" by simp
  have cb: "\<lceil>?b\<rceil> = 21"
    by (simp add: ceiling_eq_iff)
  have by_le: "?b \<le> ?y" and y_le: "Num ?y \<le> A4_HEIGHT" and b_pos: "0 \<le> ?b"
    by (simp_all add: A4_HEIGHT_eq)
  have page: "onPage (Num 0, defaultBaseY + Num 300, Math_ceil A4_WIDTH,
             Math_ceil (A4_HEIGHT - (defaultBaseY + Num 300))) = Some (0, ?y, 593, 521)"
    unfolding sample_below(2) ceil_A4_WIDTH
    unfolding sample_below(1)
    by simp
  note inst = blank_rects[OF r r, where element = sampleRoot and cw = "Num 550"
      and itemName = "''item''" and groupName = "''group''" and bX = defaultBaseX
      and img = sampleImage and hof = True and fol = True and ch = "Num 800" and n = 2
      and x = ?x and w = 550]
  note sample = inst[where bY = defaultBaseY and b = ?b and e = "Num 300" and y = ?y
      and r = "(0, ?y, 593, 521)"]
  note A = sample[THEN conjunct1]
  note B = sample[THEN conjunct2, THEN conjunct1]
  note C = sample[THEN conjunct2, THEN conjunct2, THEN conjunct1]
  note D = sample[THEN conjunct2, THEN conjunct2, THEN conjunct2]
  have len: "length (splitElement sampleRoot (Num 550) (Num 800) ''item'' ''group'') = 2"
    and e0: "splitElement sampleRoot (Num 550) (Num 800) ''item'' ''group'' ! 0 = Num 300"
    by (simp_all add: sample_split)
  from A obtain p' where run: "outputWithAdaptive sampleRoot (Num 550) ''item'' ''group''
           defaultBaseX defaultBaseY (addImage sampleImage)
           (addHeader sampleRaster defaultBaseX (Num 550) NotElement True)
           (addFooter sampleRaster defaultBaseX (Num 550) NotElement True) (Num 800)
           (new_jsPDF\<lparr>rasterized := [sampleRoot]\<rparr>) = (Inr (), p')"
    and pages: "\<forall>i < length (splitElement sampleRoot (Num 550) (Num 800) ''item'' ''group'').
               rects (pagesOf (calls p') ! i) =
                 (if i = 0 then [] else [(Num 0, Num 0, Math_ceil A4_WIDTH, Math_ceil defaultBaseY)])
                 @ (if Suc i = length (splitElement sampleRoot (Num 550) (Num 800) ''item'' ''group'')
                    then []
                    else [(Num 0,
                           defaultBaseY + splitElement sampleRoot (Num 550) (Num 800) ''item'' ''group'' ! i,
                           Math_ceil A4_WIDTH,
                           Math_ceil (A4_HEIGHT
                             - (defaultBaseY
                                + splitElement sampleRoot (Num 550) (Num 800) ''item'' ''group'' ! i)))])"
    by blast
  have "rects (pagesOf (calls p') ! 0) =
          [(Num 0, defaultBaseY + Num 300, Math_ceil A4_WIDTH,
            Math_ceil (A4_HEIGHT - (defaultBaseY + Num 300)))]"
    using pages[rule_format, of 0] len e0 by simp
  then have "rects (pagesOf (calls p') ! 0) = [(Num 0, Num ?y, Num 593, Num 521)]"
    unfolding sample_below(2) ceil_A4_WIDTH
    unfolding sample_below(1) .
  then have ad: "rects (pagesOf (calls (snd
        (outputWithAdaptive sampleRoot (Num 550) ''item'' ''group'' defaultBaseX defaultBaseY
           (addImage sampleImage)
           (addHeader sampleRaster defaultBaseX (Num 550) NotElement True)
           (addFooter sampleRaster defaultBaseX (Num 550) NotElement True) (Num 800)
           (new_jsPDF\<lparr>rasterized := [sampleRoot]\<rparr>)))) ! 0)
       = [(Num 0, Num ?y, Num 593, Num 521)]"
    unfolding run snd_conv .
  from B sample_pageNum two obtain q' where run2: "outputWithFixedSize defaultBaseX defaultBaseY
           (height sampleImage) (addImage sampleImage)
           (addHeader sampleRaster defaultBaseX (Num 550) NotElement True)
           (addFooter sampleRaster defaultBaseX (Num 550) NotElement True) (Num 800)
           (new_jsPDF\<lparr>rasterized := [sampleRoot]\<rparr>) = (Inr (), q')"
    and pages2: "\<forall>i < 2.
               rects (pagesOf (calls q') ! i) =
                 (if i = 0 then [] else [(Num 0, Num 0, Math_ceil A4_WIDTH, Math_ceil defaultBaseY)])
                 @ (if Suc i = 2 then []
                    else [(Num 0, defaultBaseY + Num 800, Math_ceil A4_WIDTH,
                           Math_ceil (A4_HEIGHT - (defaultBaseY + Num 800)))])"
    by blast
  have "rects (pagesOf (calls q') ! 1) = [(Num 0, Num 0, Math_ceil A4_WIDTH, Math_ceil defaultBaseY)]"
    using pages2[rule_format, of 1] by simp
  then have "rects (pagesOf (calls q') ! 1) = [(Num 0, Num 0, Num 593, Num 21)]"
    unfolding sample_below(3) ceil_A4_WIDTH .
  then have fx: "rects (pagesOf (calls (snd
        (outputWithFixedSize defaultBaseX defaultBaseY (height sampleImage) (addImage sampleImage)
           (addHeader sampleRaster defaultBaseX (Num 550) NotElement True)
           (addFooter sampleRaster defaultBaseX (Num 550) NotElement True) (Num 800)
           (new_jsPDF\<lparr>rasterized := [sampleRoot]\<rparr>)))) ! 1)
       = [(Num 0, Num 0, Num 593, Num 21)]"
    unfolding run2 snd_conv .
  have below: "\<not> overlap (0, ?y, 593, 521) (?x, ?b, 550, ?y - ?b)"
    using C defaultBaseY_eq sample_below(1) by_le y_le page by blast
  have "overlapHeight (0, 0, 593, of_int \<lceil>?b\<rceil>) (?x, ?b, 550, ?y - ?b) < 1"
    using D defaultBaseY_eq b_pos by_le by blast
  then have above: "overlapHeight (0, 0, 593, 21) (?x, ?b, 550, ?y - ?b) < 1"
    unfolding cb by simp
  have int21: "real_of_int \<lceil>21::real\<rceil> = 21"
    by simp
  have "\<not> overlap (0, 0, 593, of_int \<lceil>21::real\<rceil>) (?x, 21, 550, 321 - 21)"
    using inst[where bY = "Num 21" and b = 21 and y = 321,
        THEN conjunct2, THEN conjunct2, THEN conjunct2] int21
    by simp
  then have clear: "\<not> overlap (0, 0, 593, 21) (?x, 21, 550, 321 - 21)"
    by simp
  show ?thesis
    using r sample_pageNum two ad fx defaultBaseY_eq sample_below(1) by_le y_le page below
      b_pos above int21 clear
    by (intro conjI)
qed

text \<open>
  The claim as the specification states it, that no blanking rectangle overlaps the band
  it is adjacent to, fails in three ways. With the default options \<open>baseY\<close> is
  \<open>(841.89 - 800) / 2\<close>, just below 20.945, and on the second page of \<open>sampleRoot\<close>,
  whose entry is 700, the rectangle above the band is \<open>(0, 0, 593, 21)\<close> and covers the
  uppermost part of the band. For \<open>oversizedRoot\<close> the second entry is 900, more than
  the page holds below \<open>baseY\<close>: the rectangle below the band of the second page has the
  height \<open>-79\<close> and covers the lowest 79 units of the band. And for \<open>y = -30\<close> the
  rectangle above has the height \<open>-30\<close> and covers the uppermost 30 units of the band.
\<close>

theorem blank_overlaps_band:
  "rects (pagesOf (calls (snd (outputPdf sampleRaster
       (sampleParam (HTMLElement sampleRoot) NotElement NotElement)))) ! 1)
     = [(Num 0, Num 0, Num 593, Num 21)]
   \<and> splitElement sampleRoot (Num 550) (Num 800) ''item'' ''group'' ! 1 = Num 700
   \<and> defaultBaseX = Num (185949406489477 / 2 ^ 43)
   \<and> defaultBaseY = Num (368468336700293 / 2 ^ 44)
   \<and> defaultBaseY + Num 700 = Num (3170749641947873 / 2 ^ 42)
   \<and> overlap (0, 0, 593, 21)
        (185949406489477 / 2 ^ 43, 368468336700293 / 2 ^ 44, 550,
         3170749641947873 / 2 ^ 42 - 368468336700293 / 2 ^ 44)
   \<and> splitElement oversizedRoot (Num 550) (Num 800) ''item'' ''group''
        = [Num 0, Num 900, Num 100]
   \<and> rects (pagesOf (calls (snd
        (outputWithAdaptive oversizedRoot (Num 550) ''item'' ''group'' defaultBaseX defaultBaseY
           (addImage sampleImage)
           (addHeader sampleRaster defaultBaseX (Num 550) NotElement True)
           (addFooter sampleRaster defaultBaseX (Num 550) NotElement True) (Num 800)
           (new_jsPDF\<lparr>rasterized := [oversizedRoot]\<rparr>)))) ! 1)
       = [(Num 0, Num 0, Num 593, Num 21),
          (Num 0, Num (4050358944168673 / 2 ^ 42), Num 593, Num (- 79))]
   \<and> defaultBaseY + Num 900 = Num (4050358944168673 / 2 ^ 42)
   \<and> overlap (0, 4050358944168673 / 2 ^ 42, 593, - 79)
        (185949406489477 / 2 ^ 43, 368468336700293 / 2 ^ 44, 550,
         4050358944168673 / 2 ^ 42 - 368468336700293 / 2 ^ 44)
   \<and> rects (pagesOf (calls (snd
        (outputWithAdaptive sampleRoot (Num 550) ''item'' ''group'' defaultBaseX (Num (- 30))
           (addImage sampleImage)
           (addHeader sampleRaster defaultBaseX (Num 550) NotElement True)
           (addFooter sampleRaster defaultBaseX (Num 550) NotElement True) (Num 800)
           (new_jsPDF\<lparr>rasterized := [sampleRoot]\<rparr>)))) ! 1)
       = [(Num 0, Num 0, Num 593, Num (- 30))]
   \<and> Num (- 30) + Num 700 = Num 670
   \<and> overlapHeight (0, 0, 593, - 30) (185949406489477 / 2 ^ 43, - 30, 550, 670 - (- 30)) = 30"
proof -
  have r: "rasterOK sampleRaster NotElement"
    by (rule sample_rasterOK)
  have p1: "rects (pagesOf (calls (snd (outputPdf sampleRaster
       (sampleParam (HTMLElement sampleRoot) NotElement NotElement)))) ! 1)
     = [(Num 0, Num 0, Num 593, Num 21)]"
    by (simp add: default_calls)
  have e1: "splitElement sampleRoot (Num 550) (Num 800) ''item'' ''group'' ! 1 = Num 700"
    by (simp add: sample_split)
  have y700: "defaultBaseY + Num 700 = Num (3170749641947873 / 2 ^ 42)"
    by (simp add: defaultBaseY_eq fl_eval)
  have o1: "overlap (0, 0, 593, 21)
        (185949406489477 / 2 ^ 43, 368468336700293 / 2 ^ 44, 550,
         3170749641947873 / 2 ^ 42 - 368468336700293 / 2 ^ 44)"
    by (simp add: overlap_def overlapWidth_def overlapHeight_def)
  have hs: "scaledHeights oversizedRoot (Num 550) ''item'' ''group'' = [Num 900, Num 100]"
    by (simp add: scaledHeights_def oversizedRoot_def item100_def item_tags fl_eval)
  have es: "splitElement oversizedRoot (Num 550) (Num 800) ''item'' ''group''
        = [Num 0, Num 900, Num 100]"
    unfolding splitElement_fold hs by (simp add: updatePos_def fl_eval)
  have y900: "defaultBaseY + Num 900 = Num (4050358944168673 / 2 ^ 42)"
    by (simp add: defaultBaseY_eq fl_eval)
  have d900: "A4_HEIGHT - Num (4050358944168673 / 2 ^ 42) = Num (- (695375133870653 / 2 ^ 43))"
    by (simp add: A4_HEIGHT_eq minus_jsnum_def fl_eval)
  have c900: "\<lceil>- ((695375133870653::real) / 2 ^ 43)\<rceil> = - 79"
    by (simp add: ceiling_eq_iff)
  have "rects (pagesOf (calls (snd
        (outputWithAdaptive oversizedRoot (Num 550) ''item'' ''group'' defaultBaseX defaultBaseY
           (addImage sampleImage)
           (addHeader sampleRaster defaultBaseX (Num 550) NotElement True)
           (addFooter sampleRaster defaultBaseX (Num 550) NotElement True) (Num 800)
           (new_jsPDF\<lparr>rasterized := [oversizedRoot]\<rparr>)))) ! 1)
       = [(Num 0, Num 0, Math_ceil A4_WIDTH, Math_ceil defaultBaseY),
          (Num 0, defaultBaseY + Num 900, Math_ceil A4_WIDTH,
           Math_ceil (A4_HEIGHT - (defaultBaseY + Num 900)))]"
    by (subst adaptive_rects[OF r r]) (simp_all add: es)
  then have p2: "rects (pagesOf (calls (snd
        (outputWithAdaptive oversizedRoot (Num 550) ''item'' ''group'' defaultBaseX defaultBaseY
           (addImage sampleImage)
           (addHeader sampleRaster defaultBaseX (Num 550) NotElement True)
           (addFooter sampleRaster defaultBaseX (Num 550) NotElement True) (Num 800)
           (new_jsPDF\<lparr>rasterized := [oversizedRoot]\<rparr>)))) ! 1)
       = [(Num 0, Num 0, Num 593, Num 21),
          (Num 0, Num (4050358944168673 / 2 ^ 42), Num 593, Num (- 79))]"
    unfolding y900 d900 ceil_A4_WIDTH sample_below(3) Math_ceil.simps c900 by simp
  have o2: "overlap (0, 4050358944168673 / 2 ^ 42, 593, - 79)
        (185949406489477 / 2 ^ 43, 368468336700293 / 2 ^ 44, 550,
         4050358944168673 / 2 ^ 42 - 368468336700293 / 2 ^ 44)"
    by (simp add: overlap_def overlapWidth_def overlapHeight_def)
  have "rects (pagesOf (calls (snd
        (outputWithAdaptive sampleRoot (Num 550) ''item'' ''group'' defaultBaseX (Num (- 30))
           (addImage sampleImage)
           (addHeader sampleRaster defaultBaseX (Num 550) NotElement True)
           (addFooter sampleRaster defaultBaseX (Num 550) NotElement True) (Num 800)
           (new_jsPDF\<lparr>rasterized := [sampleRoot]\<rparr>)))) ! 1)
       = [(Num 0, Num 0, Math_ceil A4_WIDTH, Math_ceil (Num (- 30)))]"
    by (subst adaptive_rects[OF r r]) (simp_all add: sample_split)
  then have p3: "rects (pagesOf (calls (snd
        (outputWithAdaptive sampleRoot (Num 550) ''item'' ''group'' defaultBaseX (Num (- 30))
           (addImage sampleImage)
           (addHeader sampleRaster defaultBaseX (Num 550) NotElement True)
           (addFooter sampleRaster defaultBaseX (Num 550) NotElement True) (Num 800)
           (new_jsPDF\<lparr>rasterized := [sampleRoot]\<rparr>)))) ! 1)
       = [(Num 0, Num 0, Num 593, Num (- 30))]"
    unfolding ceil_A4_WIDTH by simp
  have y670: "Num (- 30) + Num 700 = Num 670"
    by (simp add: fl_eval)
  have o3: "overlapHeight (0, 0, 593, - 30) (185949406489477 / 2 ^ 43, - 30, 550, 670 - (- 30)) = 30"
    by (simp add: overlapHeight_def)
  show ?thesis
    using p1 e1 defaultBaseX_eq defaultBaseY_eq y700 o1 es p2 y900 o2 p3 y670 o3
    by (intro conjI)
qed

text \<open>
  C5. For a break sequence of \<open>N \<ge> 1\<close> entries the compositor produces exactly \<open>N\<close>
  pages: \<open>addPage\<close> is called \<open>N - 1\<close> times, and every page, the last one included,
  holds the content image of exactly one entry, so that a page is appended after each
  entry but the last and never after the final one. This holds for the loop of
  \<open>outputWithAdaptive\<close> on any sequence that is not empty, hence for
  \<open>outputWithAdaptive\<close>, whose sequence is the result of \<open>splitElement\<close> and never
  empty, and for \<open>outputWithFixedSize\<close>, where \<open>N\<close> is the length of \<open>arr\<close>.
\<close>

theorem compositor_page_count:
  assumes "rasterOK html2canvas header" and "rasterOK html2canvas footer"
  shows
    "(elements \<noteq> [] \<longrightarrow>
       (\<exists>p'. adaptivePages bX bY (addImage img)
             (addHeader html2canvas bX cw header hof) (addFooter html2canvas bX cw footer fol)
             (length elements) elements (Num 0) 0 (new_jsPDF\<lparr>rasterized := [element]\<rparr>)
           = (Inr (), p')
         \<and> length (pagesOf (calls p')) = length elements
         \<and> length (filter (\<lambda>e. e = AddPage) (calls p')) = length elements - 1
         \<and> map (\<lambda>pg. length (filter (stampedBy Content) pg)) (pagesOf (calls p'))
             = replicate (length elements) 1))
     \<and> (\<exists>p'. outputWithAdaptive element cw itemName groupName bX bY (addImage img)
             (addHeader html2canvas bX cw header hof) (addFooter html2canvas bX cw footer fol) ch
             (new_jsPDF\<lparr>rasterized := [element]\<rparr>) = (Inr (), p')
         \<and> length (pagesOf (calls p')) = length (splitElement element cw ch itemName groupName)
         \<and> length (filter (\<lambda>e. e = AddPage) (calls p'))
             = length (splitElement element cw ch itemName groupName) - 1
         \<and> map (\<lambda>pg. length (filter (stampedBy Content) pg)) (pagesOf (calls p'))
             = replicate (length (splitElement element cw ch itemName groupName)) 1)
     \<and> (pageNum (height img) ch = Inr n \<and> 0 < n \<longrightarrow>
         (\<exists>p'. outputWithFixedSize bX bY (height img) (addImage img)
             (addHeader html2canvas bX cw header hof) (addFooter html2canvas bX cw footer fol) ch
             (new_jsPDF\<lparr>rasterized := [element]\<rparr>) = (Inr (), p')
         \<and> length (pagesOf (calls p')) = n
         \<and> length (filter (\<lambda>e. e = AddPage) (calls p')) = n - 1
         \<and> map (\<lambda>pg. length (filter (stampedBy Content) pg)) (pagesOf (calls p'))
             = replicate n 1))"
proof (intro conjI impI)
  assume ne: "elements \<noteq> []"
  show "\<exists>p'. adaptivePages bX bY (addImage img)
             (addHeader html2canvas bX cw header hof) (addFooter html2canvas bX cw footer fol)
             (length elements) elements (Num 0) 0 (new_jsPDF\<lparr>rasterized := [element]\<rparr>)
           = (Inr (), p')
         \<and> length (pagesOf (calls p')) = length elements
         \<and> length (filter (\<lambda>e. e = AddPage) (calls p')) = length elements - 1
         \<and> map (\<lambda>pg. length (filter (stampedBy Content) pg)) (pagesOf (calls p'))
             = replicate (length elements) 1"
    unfolding loop_run[OF assms ne]
    by (simp add: pages_joinPages_pageList[OF adaptiveLayout_nonempty[OF ne]]
        breaks_joinPages_pageList map_pageList content_pageCalls map_replicate_const)
next
  let ?els = "splitElement element cw ch itemName groupName"
  have ne: "?els \<noteq> []" by (rule splitElement_nonempty)
  show "\<exists>p'. outputWithAdaptive element cw itemName groupName bX bY (addImage img)
             (addHeader html2canvas bX cw header hof) (addFooter html2canvas bX cw footer fol) ch
             (new_jsPDF\<lparr>rasterized := [element]\<rparr>) = (Inr (), p')
         \<and> length (pagesOf (calls p')) = length ?els
         \<and> length (filter (\<lambda>e. e = AddPage) (calls p')) = length ?els - 1
         \<and> map (\<lambda>pg. length (filter (stampedBy Content) pg)) (pagesOf (calls p'))
             = replicate (length ?els) 1"
    unfolding adaptive_run[OF assms]
    by (simp add: pages_joinPages_pageList[OF adaptiveLayout_nonempty[OF ne]]
        breaks_joinPages_pageList map_pageList content_pageCalls map_replicate_const)
next
  assume "pageNum (height img) ch = Inr n \<and> 0 < n"
  then have pn: "pageNum (height img) ch = Inr n" and n: "0 < n" by simp_all
  show "\<exists>p'. outputWithFixedSize bX bY (height img) (addImage img)
             (addHeader html2canvas bX cw header hof) (addFooter html2canvas bX cw footer fol) ch
             (new_jsPDF\<lparr>rasterized := [element]\<rparr>) = (Inr (), p')
         \<and> length (pagesOf (calls p')) = n
         \<and> length (filter (\<lambda>e. e = AddPage) (calls p')) = n - 1
         \<and> map (\<lambda>pg. length (filter (stampedBy Content) pg)) (pagesOf (calls p'))
             = replicate n 1"
    unfolding fixed_run[OF assms pn n]
    by (simp add: pages_joinPages_pageList[OF fixedLayout_nonempty[OF n]]
        breaks_joinPages_pageList map_pageList content_pageCalls map_replicate_const)
qed

theorem compositor_page_count_witness:
  "rasterOK sampleRaster (HTMLElement sampleHeader) \<and> rasterOK sampleRaster NotElement
   \<and> pageNum (height sampleImage) (Num 800) = Inr 2 \<and> (0::nat) < 2
   \<and> [Num 100, Num 200, Num 300] \<noteq> []
   \<and> length (pagesOf (calls (snd
        (adaptivePages defaultBaseX defaultBaseY (addImage sampleImage)
           (addHeader sampleRaster defaultBaseX (Num 550) (HTMLElement sampleHeader) True)
           (addFooter sampleRaster defaultBaseX (Num 550) NotElement True)
           (length [Num 100, Num 200, Num 300])
           [Num 100, Num 200, Num 300] (Num 0) 0 (new_jsPDF\<lparr>rasterized := [sampleRoot]\<rparr>))))) = 3
   \<and> length (splitElement sampleRoot (Num 550) (Num 800) ''item'' ''group'') = 2
   \<and> length (filter (\<lambda>e. e = AddPage) (calls (snd
        (outputWithAdaptive sampleRoot (Num 550) ''item'' ''group'' defaultBaseX defaultBaseY
           (addImage sampleImage)
           (addHeader sampleRaster defaultBaseX (Num 550) (HTMLElement sampleHeader) True)
           (addFooter sampleRaster defaultBaseX (Num 550) NotElement True) (Num 800)
           (new_jsPDF\<lparr>rasterized := [sampleRoot]\<rparr>))))) = 1
   \<and> map (\<lambda>pg. length (filter (stampedBy Content) pg)) (pagesOf (calls (snd
        (outputWithFixedSize defaultBaseX defaultBaseY (height sampleImage) (addImage sampleImage)
           (addHeader sampleRaster defaultBaseX (Num 550) (HTMLElement sampleHeader) True)
           (addFooter sampleRaster defaultBaseX (Num 550) NotElement True) (Num 800)
           (new_jsPDF\<lparr>rasterized := [sampleRoot]\<rparr>))))) = [1, 1]"
proof -
  have r1: "rasterOK sampleRaster (HTMLElement sampleHeader)"
    and r2: "rasterOK sampleRaster NotElement"
    by (rule sample_rasterOK)+
  show ?thesis
    using compositor_page_count[OF r1 r2,
        where element = sampleRoot and cw = "Num 550" and itemName = "''item''"
          and groupName = "''group''" and bX = defaultBaseX and bY = defaultBaseY
          and img = sampleImage and hof = True and fol = True and ch = "Num 800" and n = 2
          and elements = "[Num 100, Num 200, Num 300]"]
      r1 r2
    by (auto simp: sample_split sample_pageNum numeral_2_eq_2)
qed

text \<open>
  C6. For a header element that can be rasterized and any number \<open>N\<close> of pages: when
  \<open>headerOnlyFirst\<close> is true the header is stamped once on page 0 and on no other page,
  and when it is false the header is stamped once on every one of the \<open>N\<close> pages.
\<close>

theorem header_policy:
  assumes "html2canvas el = Inr c" and "rasterOK html2canvas footer"
  shows
    "(\<exists>p'. outputWithAdaptive element cw itemName groupName bX bY (addImage img)
             (addHeader html2canvas bX cw (HTMLElement el) headerOnlyFirst)
             (addFooter html2canvas bX cw footer fol) ch
             (new_jsPDF\<lparr>rasterized := [element]\<rparr>) = (Inr (), p')
         \<and> (headerOnlyFirst \<longrightarrow>
              map (\<lambda>pg. length (filter (stampedBy Header) pg)) (pagesOf (calls p'))
                = 1 # replicate (length (splitElement element cw ch itemName groupName) - 1) 0)
         \<and> (\<not> headerOnlyFirst \<longrightarrow>
              map (\<lambda>pg. length (filter (stampedBy Header) pg)) (pagesOf (calls p'))
                = replicate (length (splitElement element cw ch itemName groupName)) 1))
     \<and> (pageNum (height img) ch = Inr n \<and> 0 < n \<longrightarrow>
         (\<exists>p'. outputWithFixedSize bX bY (height img) (addImage img)
             (addHeader html2canvas bX cw (HTMLElement el) headerOnlyFirst)
             (addFooter html2canvas bX cw footer fol) ch
             (new_jsPDF\<lparr>rasterized := [element]\<rparr>) = (Inr (), p')
         \<and> (headerOnlyFirst \<longrightarrow>
              map (\<lambda>pg. length (filter (stampedBy Header) pg)) (pagesOf (calls p'))
                = 1 # replicate (n - 1) 0)
         \<and> (\<not> headerOnlyFirst \<longrightarrow>
              map (\<lambda>pg. length (filter (stampedBy Header) pg)) (pagesOf (calls p'))
                = replicate n 1)))"
proof (intro conjI impI)
  have hdr: "rasterOK html2canvas (HTMLElement el)"
    using assms(1) by (simp add: rasterOK_def)
  let ?els = "splitElement element cw ch itemName groupName"
  have ne: "adaptiveLayout bY ?els \<noteq> []"
    by (rule adaptiveLayout_nonempty[OF splitElement_nonempty])
  show "\<exists>p'. outputWithAdaptive element cw itemName groupName bX bY (addImage img)
             (addHeader html2canvas bX cw (HTMLElement el) headerOnlyFirst)
             (addFooter html2canvas bX cw footer fol) ch
             (new_jsPDF\<lparr>rasterized := [element]\<rparr>) = (Inr (), p')
         \<and> (headerOnlyFirst \<longrightarrow>
              map (\<lambda>pg. length (filter (stampedBy Header) pg)) (pagesOf (calls p'))
                = 1 # replicate (length ?els - 1) 0)
         \<and> (\<not> headerOnlyFirst \<longrightarrow>
              map (\<lambda>pg. length (filter (stampedBy Header) pg)) (pagesOf (calls p'))
                = replicate (length ?els) 1)"
    unfolding adaptive_run[OF hdr assms(2)]
    by (simp add: pages_joinPages_pageList[OF ne]
        header_counts[where html2canvas = html2canvas and el = el, OF assms(1) ne])
next
  have hdr: "rasterOK html2canvas (HTMLElement el)"
    using assms(1) by (simp add: rasterOK_def)
  assume "pageNum (height img) ch = Inr n \<and> 0 < n"
  then have pn: "pageNum (height img) ch = Inr n" and n: "0 < n" by simp_all
  have ne: "fixedLayout bY ch n \<noteq> []"
    by (rule fixedLayout_nonempty[OF n])
  show "\<exists>p'. outputWithFixedSize bX bY (height img) (addImage img)
             (addHeader html2canvas bX cw (HTMLElement el) headerOnlyFirst)
             (addFooter html2canvas bX cw footer fol) ch
             (new_jsPDF\<lparr>rasterized := [element]\<rparr>) = (Inr (), p')
         \<and> (headerOnlyFirst \<longrightarrow>
              map (\<lambda>pg. length (filter (stampedBy Header) pg)) (pagesOf (calls p'))
                = 1 # replicate (n - 1) 0)
         \<and> (\<not> headerOnlyFirst \<longrightarrow>
              map (\<lambda>pg. length (filter (stampedBy Header) pg)) (pagesOf (calls p'))
                = replicate n 1)"
    unfolding fixed_run[OF hdr assms(2) pn n]
    by (simp add: pages_joinPages_pageList[OF ne]
        header_counts[where html2canvas = html2canvas and el = el, OF assms(1) ne])
qed

theorem header_policy_witness:
  "sampleRaster sampleHeader =
     Inr \<lparr>canvas_width = Num 1100, canvas_height = Num 40, toDataURL = ''data:image/jpeg''\<rparr>
   \<and> rasterOK sampleRaster NotElement
   \<and> pageNum (height sampleImage) (Num 800) = Inr 2 \<and> (0::nat) < 2
   \<and> map (\<lambda>pg. length (filter (stampedBy Header) pg)) (pagesOf (calls (snd
        (outputWithAdaptive sampleRoot (Num 550) ''item'' ''group'' defaultBaseX defaultBaseY
           (addImage sampleImage)
           (addHeader sampleRaster defaultBaseX (Num 550) (HTMLElement sampleHeader) True)
           (addFooter sampleRaster defaultBaseX (Num 550) NotElement True) (Num 800)
           (new_jsPDF\<lparr>rasterized := [sampleRoot]\<rparr>))))) = [1, 0]
   \<and> map (\<lambda>pg. length (filter (stampedBy Header) pg)) (pagesOf (calls (snd
        (outputWithFixedSize defaultBaseX defaultBaseY (height sampleImage) (addImage sampleImage)
           (addHeader sampleRaster defaultBaseX (Num 550) (HTMLElement sampleHeader) False)
           (addFooter sampleRaster defaultBaseX (Num 550) NotElement True) (Num 800)
           (new_jsPDF\<lparr>rasterized := [sampleRoot]\<rparr>))))) = [1, 1]"
proof -
  have r2: "rasterOK sampleRaster NotElement"
    by (rule sample_rasterOK)
  show ?thesis
    using header_policy[OF sample_header_canvas r2,
        where element = sampleRoot and cw = "Num 550" and itemName = "''item''"
          and groupName = "''group''" and bX = defaultBaseX and bY = defaultBaseY
          and img = sampleImage and headerOnlyFirst = True and fol = True and ch = "Num 800"
          and n = 2]
      header_policy[OF sample_header_canvas r2,
        where element = sampleRoot and cw = "Num 550" and itemName = "''item''"
          and groupName = "''group''" and bX = defaultBaseX and bY = defaultBaseY
          and img = sampleImage and headerOnlyFirst = False and fol = True and ch = "Num 800"
          and n = 2]
      r2 sample_header_canvas
    by (auto simp: sample_split sample_pageNum numeral_2_eq_2)
qed

text \<open>
  C7, as the code computes it. For a rendered image of height \<open>h > 0\<close> and
  \<open>contentHeight = c > 0\<close>, let \<open>q\<close> be the double that the division \<open>h / c\<close>
  returns. When \<open>q > 0\<close> and \<open>\<lceil>q\<rceil> \<le> 2 ^ 32 - 1\<close>, fixed-mode pagination produces
  exactly \<open>\<lceil>q\<rceil>\<close> pages, and page \<open>i\<close> places the shared image at the vertical
  offset \<open>baseY - i * c\<close>; the height 2000 with \<open>contentHeight\<close> 800 gives 3 pages.
  When \<open>\<lceil>q\<rceil>\<close> exceeds \<open>2 ^ 32 - 1\<close>, or the division overflows to \<open>Infinity\<close>,
  \<open>Array.from\<close> throws a \<open>RangeError\<close> before anything is drawn.
\<close>

theorem fixed_pages:
  assumes "rasterOK html2canvas header" and "rasterOK html2canvas footer"
    and "height img = Num h" and "ch = Num c" and "0 < h" and "0 < c"
  shows
    "(height img / ch = Num q \<and> 0 < q \<and> \<lceil>q\<rceil> \<le> 2 ^ 32 - 1 \<longrightarrow>
       (\<exists>p'. outputWithFixedSize bX bY (height img) (addImage img)
             (addHeader html2canvas bX cw header hof) (addFooter html2canvas bX cw footer fol) ch
             (new_jsPDF\<lparr>rasterized := [element]\<rparr>) = (Inr (), p')
         \<and> length (pagesOf (calls p')) = nat \<lceil>q\<rceil>
         \<and> map (filter (stampedBy Content)) (pagesOf (calls p'))
             = map (\<lambda>i. [AddImage Content (data img) ''JPEG'' bX (bY - Num (real i) * ch)
                            (width img) (height img)])
                 [0..<nat \<lceil>q\<rceil>]))
     \<and> (h = 2000 \<and> c = 800 \<longrightarrow>
          (\<exists>p'. outputWithFixedSize bX bY (height img) (addImage img)
             (addHeader html2canvas bX cw header hof) (addFooter html2canvas bX cw footer fol) ch
             (new_jsPDF\<lparr>rasterized := [element]\<rparr>) = (Inr (), p')
          \<and> length (pagesOf (calls p')) = 3))
     \<and> ((height img / ch = Num q \<and> 2 ^ 32 - 1 < \<lceil>q\<rceil>) \<or> height img / ch = Infinity \<longrightarrow>
          outputWithFixedSize bX bY (height img) (addImage img)
             (addHeader html2canvas bX cw header hof) (addFooter html2canvas bX cw footer fol) ch
             (new_jsPDF\<lparr>rasterized := [element]\<rparr>)
          = (Inl RangeError, new_jsPDF\<lparr>rasterized := [element]\<rparr>))"
proof -
  have pages: "\<exists>p'. outputWithFixedSize bX bY (height img) (addImage img)
             (addHeader html2canvas bX cw header hof) (addFooter html2canvas bX cw footer fol) ch
             (new_jsPDF\<lparr>rasterized := [element]\<rparr>) = (Inr (), p')
         \<and> length (pagesOf (calls p')) = nat \<lceil>r\<rceil>
         \<and> map (filter (stampedBy Content)) (pagesOf (calls p'))
             = map (\<lambda>i. [AddImage Content (data img) ''JPEG'' bX (bY - Num (real i) * ch)
                            (width img) (height img)])
                 [0..<nat \<lceil>r\<rceil>]"
    if quot: "height img / ch = Num r" and pos: "0 < r" and small: "\<lceil>r\<rceil> \<le> 2 ^ 32 - 1" for r
  proof -
    let ?n = "nat \<lceil>r\<rceil>"
    have one: "1 \<le> \<lceil>r\<rceil>" using pos by linarith
    have "\<not> real_of_int \<lceil>r\<rceil> < 1" using one by linarith
    moreover have "\<not> 2 ^ 32 - 1 < real_of_int \<lceil>r\<rceil>"
    proof -
      have "real_of_int \<lceil>r\<rceil> \<le> real_of_int (2 ^ 32 - 1)"
        using small by (simp only: of_int_le_iff)
      then show ?thesis by simp
    qed
    ultimately have pn: "pageNum (height img) ch = Inr ?n"
      by (simp add: pageNum_def quot)
    have n: "0 < ?n" using one by simp
    let ?p' = "\<lparr>calls = joinPages (pageList img bX bY cw (bandImage html2canvas cw header) hof
                  (bandImage html2canvas cw footer) fol (fixedLayout bY ch ?n) 0),
       rasterized = [element] @ elems header @ elems footer,
       cached_header = bandImage html2canvas cw header,
       cached_footer = bandImage html2canvas cw footer\<rparr>"
    have pg: "pagesOf (calls ?p') = pageList img bX bY cw (bandImage html2canvas cw header) hof
                  (bandImage html2canvas cw footer) fol (fixedLayout bY ch ?n) 0"
      by (simp add: pages_joinPages_pageList[OF fixedLayout_nonempty[OF n]])
    have len: "length (pagesOf (calls ?p')) = ?n"
      unfolding pg by simp
    have offs: "map (filter (stampedBy Content)) (pagesOf (calls ?p'))
             = map (\<lambda>i. [AddImage Content (data img) ''JPEG'' bX (bY - Num (real i) * ch)
                            (width img) (height img)]) [0..<?n]"
      unfolding pg by (rule content_offsets_fixed)
    show ?thesis
      using fixed_run[OF assms(1,2) pn n, of bX bY img cw hof fol "[element]"] len offs
      by blast
  qed
  have first: "height img / ch = Num q \<and> 0 < q \<and> \<lceil>q\<rceil> \<le> 2 ^ 32 - 1 \<longrightarrow>
       (\<exists>p'. outputWithFixedSize bX bY (height img) (addImage img)
             (addHeader html2canvas bX cw header hof) (addFooter html2canvas bX cw footer fol) ch
             (new_jsPDF\<lparr>rasterized := [element]\<rparr>) = (Inr (), p')
         \<and> length (pagesOf (calls p')) = nat \<lceil>q\<rceil>
         \<and> map (filter (stampedBy Content)) (pagesOf (calls p'))
             = map (\<lambda>i. [AddImage Content (data img) ''JPEG'' bX (bY - Num (real i) * ch)
                            (width img) (height img)])
                 [0..<nat \<lceil>q\<rceil>])"
    using pages[of q] by blast
  have second: "h = 2000 \<and> c = 800 \<longrightarrow>
          (\<exists>p'. outputWithFixedSize bX bY (height img) (addImage img)
             (addHeader html2canvas bX cw header hof) (addFooter html2canvas bX cw footer fol) ch
             (new_jsPDF\<lparr>rasterized := [element]\<rparr>) = (Inr (), p')
          \<and> length (pagesOf (calls p')) = 3)"
  proof
    assume hc: "h = 2000 \<and> c = 800"
    have quot: "height img / ch = Num (5 / 2)"
      using hc by (simp add: assms(3,4) fl_eval)
    have c3: "\<lceil>(5::real) / 2\<rceil> = 3"
      by (simp add: ceiling_eq_iff)
    have "\<lceil>(5::real) / 2\<rceil> \<le> 2 ^ 32 - 1"
      unfolding c3 by simp
    from pages[OF quot _ this] c3
    show "\<exists>p'. outputWithFixedSize bX bY (height img) (addImage img)
             (addHeader html2canvas bX cw header hof) (addFooter html2canvas bX cw footer fol) ch
             (new_jsPDF\<lparr>rasterized := [element]\<rparr>) = (Inr (), p')
          \<and> length (pagesOf (calls p')) = 3"
      by auto
  qed
  have third: "(height img / ch = Num q \<and> 2 ^ 32 - 1 < \<lceil>q\<rceil>) \<or> height img / ch = Infinity \<longrightarrow>
          outputWithFixedSize bX bY (height img) (addImage img)
             (addHeader html2canvas bX cw header hof) (addFooter html2canvas bX cw footer fol) ch
             (new_jsPDF\<lparr>rasterized := [element]\<rparr>)
          = (Inl RangeError, new_jsPDF\<lparr>rasterized := [element]\<rparr>)"
  proof
    assume "(height img / ch = Num q \<and> 2 ^ 32 - 1 < \<lceil>q\<rceil>) \<or> height img / ch = Infinity"
    then have "pageNum (height img) ch = Inl RangeError"
    proof
      assume big: "height img / ch = Num q \<and> 2 ^ 32 - 1 < \<lceil>q\<rceil>"
      then have "real_of_int (2 ^ 32 - 1) < real_of_int \<lceil>q\<rceil>"
        by (simp only: of_int_less_iff)
      then have "2 ^ 32 - 1 < real_of_int \<lceil>q\<rceil>" and "\<not> real_of_int \<lceil>q\<rceil> < 1"
        by simp_all
      then show ?thesis
        using big by (simp add: pageNum_def)
    next
      assume "height img / ch = Infinity"
      then show ?thesis by (simp add: pageNum_def)
    qed
    then show "outputWithFixedSize bX bY (height img) (addImage img)
             (addHeader html2canvas bX cw header hof) (addFooter html2canvas bX cw footer fol) ch
             (new_jsPDF\<lparr>rasterized := [element]\<rparr>)
          = (Inl RangeError, new_jsPDF\<lparr>rasterized := [element]\<rparr>)"
      by (simp add: outputWithFixedSize_def)
  qed
  show ?thesis
    using first second third by blast
qed

theorem fixed_pages_witness:
  "rasterOK sampleRaster NotElement \<and> rasterOK sampleRaster (HTMLElement sampleFooter)
   \<and> height tallImage = Num 2000 \<and> (0::real) < 2000 \<and> (0::real) < 800
   \<and> height tallImage / Num 800 = Num (5 / 2) \<and> (0::real) < 5 / 2
   \<and> \<lceil>(5::real) / 2\<rceil> \<le> 2 ^ 32 - 1
   \<and> length (pagesOf (calls (snd
        (outputWithFixedSize defaultBaseX defaultBaseY (height tallImage) (addImage tallImage)
           (addHeader sampleRaster defaultBaseX (Num 550) NotElement True)
           (addFooter sampleRaster defaultBaseX (Num 550) (HTMLElement sampleFooter) True)
           (Num 800) (new_jsPDF\<lparr>rasterized := [tallRoot]\<rparr>))))) = 3
   \<and> map (filter (stampedBy Content)) (pagesOf (calls (snd
        (outputWithFixedSize defaultBaseX defaultBaseY (height tallImage) (addImage tallImage)
           (addHeader sampleRaster defaultBaseX (Num 550) NotElement True)
           (addFooter sampleRaster defaultBaseX (Num 550) (HTMLElement sampleFooter) True)
           (Num 800) (new_jsPDF\<lparr>rasterized := [tallRoot]\<rparr>)))))
      = [[AddImage Content ''data:image/jpeg'' ''JPEG'' defaultBaseX defaultBaseY
            (Num 550) (Num 2000)],
         [AddImage Content ''data:image/jpeg'' ''JPEG'' defaultBaseX
            (Num (- (3426320124708127 / 2 ^ 42))) (Num 550) (Num 2000)],
         [AddImage Content ''data:image/jpeg'' ''JPEG'' defaultBaseX
            (Num (- (6944757333591327 / 2 ^ 42))) (Num 550) (Num 2000)]]
   \<and> height sampleImage = Num 1000 \<and> (0::real) < 1000
   \<and> fl (1 / 10 ^ 7) = Num (7555786372591432 / 2 ^ 76) \<and> (0::real) < 7555786372591432 / 2 ^ 76
   \<and> height sampleImage / fl (1 / 10 ^ 7) = Num 10000000000
   \<and> 2 ^ 32 - 1 < \<lceil>10000000000::real\<rceil>
   \<and> outputWithFixedSize defaultBaseX defaultBaseY (height sampleImage) (addImage sampleImage)
           (addHeader sampleRaster defaultBaseX (Num 550) NotElement True)
           (addFooter sampleRaster defaultBaseX (Num 550) (HTMLElement sampleFooter) True)
           (fl (1 / 10 ^ 7)) (new_jsPDF\<lparr>rasterized := [sampleRoot]\<rparr>)
       = (Inl RangeError, new_jsPDF\<lparr>rasterized := [sampleRoot]\<rparr>)"
proof -
  have r1: "rasterOK sampleRaster NotElement"
    and r2: "rasterOK sampleRaster (HTMLElement sampleFooter)"
    by (rule sample_rasterOK)+
  have h: "height tallImage = Num 2000" and hp: "(0::real) < 2000" and cp: "(0::real) < 800"
    by (simp_all add: tallImage_def)
  have q: "height tallImage / Num 800 = Num (5 / 2)"
    unfolding h by (rule tall_quotient)
  have qp: "(0::real) < 5 / 2" and small: "\<lceil>(5::real) / 2\<rceil> \<le> 2 ^ 32 - 1"
    by (simp_all add: tall_quotient)
  have upt3: "[0..<3] = [0, Suc 0, 2::nat]"
    by (simp add: upt_rec)
  from fixed_pages[OF r1 r2 h refl hp cp, of "5 / 2" defaultBaseX defaultBaseY "Num 550"
      True True tallRoot] q qp small
  obtain p' where run: "outputWithFixedSize defaultBaseX defaultBaseY (height tallImage)
           (addImage tallImage)
           (addHeader sampleRaster defaultBaseX (Num 550) NotElement True)
           (addFooter sampleRaster defaultBaseX (Num 550) (HTMLElement sampleFooter) True)
           (Num 800) (new_jsPDF\<lparr>rasterized := [tallRoot]\<rparr>) = (Inr (), p')"
    and len: "length (pagesOf (calls p')) = nat \<lceil>(5::real) / 2\<rceil>"
    and offs: "map (filter (stampedBy Content)) (pagesOf (calls p'))
             = map (\<lambda>i. [AddImage Content (data tallImage) ''JPEG'' defaultBaseX
                            (defaultBaseY - Num (real i) * Num 800)
                            (width tallImage) (height tallImage)])
                 [0..<nat \<lceil>(5::real) / 2\<rceil>]"
    by blast
  have len3: "length (pagesOf (calls p')) = 3"
    unfolding len tall_quotient by simp
  have offs3: "map (filter (stampedBy Content)) (pagesOf (calls p'))
      = [[AddImage Content ''data:image/jpeg'' ''JPEG'' defaultBaseX defaultBaseY
            (Num 550) (Num 2000)],
         [AddImage Content ''data:image/jpeg'' ''JPEG'' defaultBaseX
            (Num (- (3426320124708127 / 2 ^ 42))) (Num 550) (Num 2000)],
         [AddImage Content ''data:image/jpeg'' ''JPEG'' defaultBaseX
            (Num (- (6944757333591327 / 2 ^ 42))) (Num 550) (Num 2000)]]"
    unfolding offs tall_quotient
    by (simp add: upt3 tallImage_def defaultBaseY_eq minus_jsnum_def fl_eval)
  have h2: "height sampleImage = Num 1000" and hp2: "(0::real) < 1000"
    by (simp_all add: sampleImage_def)
  have cp2: "(0::real) < 7555786372591432 / 2 ^ 76"
    by simp
  have q2: "height sampleImage / fl (1 / 10 ^ 7) = Num 10000000000"
    unfolding h2 tiny_contentHeight by (simp add: fl_eval)
  have big: "2 ^ 32 - 1 < \<lceil>10000000000::real\<rceil>"
    by simp
  from fixed_pages[OF r1 r2 h2 tiny_contentHeight hp2 cp2, of 10000000000 defaultBaseX
      defaultBaseY "Num 550" True True sampleRoot] q2 big
  have err: "outputWithFixedSize defaultBaseX defaultBaseY (height sampleImage)
           (addImage sampleImage)
           (addHeader sampleRaster defaultBaseX (Num 550) NotElement True)
           (addFooter sampleRaster defaultBaseX (Num 550) (HTMLElement sampleFooter) True)
           (fl (1 / 10 ^ 7)) (new_jsPDF\<lparr>rasterized := [sampleRoot]\<rparr>)
       = (Inl RangeError, new_jsPDF\<lparr>rasterized := [sampleRoot]\<rparr>)"
    by blast
  show ?thesis
    unfolding run snd_conv
    using r1 r2 h hp cp q qp small len3 offs3 h2 hp2 tiny_contentHeight cp2 q2 big err
    by (intro conjI)
qed

text \<open>
  The claim as the specification states it fails in two ways. For the height 1000 and
  \<open>contentHeight = 1e-7\<close> the quotient is \<open>10 ^ 10\<close>, above the longest array that
  \<open>Array.from\<close> builds: the call throws the \<open>RangeError\<close> and produces no page. And
  for \<open>contentHeight = 333.3333333333333\<close> the exact quotient lies just above 3, with
  the ceiling 4, while the division of the code rounds it to 3: the code makes 3 pages.
\<close>

theorem fixed_pages_limit:
  "height sampleImage = Num 1000
   \<and> fl (1 / 10 ^ 7) = Num (7555786372591432 / 2 ^ 76) \<and> (0::real) < 7555786372591432 / 2 ^ 76
   \<and> outputWithFixedSize defaultBaseX defaultBaseY (height sampleImage) (addImage sampleImage)
           (addHeader sampleRaster defaultBaseX (Num 550) NotElement True)
           (addFooter sampleRaster defaultBaseX (Num 550) NotElement True)
           (fl (1 / 10 ^ 7)) (new_jsPDF\<lparr>rasterized := [sampleRoot]\<rparr>)
       = (Inl RangeError, new_jsPDF\<lparr>rasterized := [sampleRoot]\<rparr>)
   \<and> fl 333.3333333333333 = Num (5864062014805333 / 2 ^ 44)
   \<and> (0::real) < 5864062014805333 / 2 ^ 44
   \<and> length (pagesOf (calls (snd
        (outputWithFixedSize defaultBaseX defaultBaseY (height sampleImage) (addImage sampleImage)
           (addHeader sampleRaster defaultBaseX (Num 550) NotElement True)
           (addFooter sampleRaster defaultBaseX (Num 550) NotElement True)
           (fl 333.3333333333333) (new_jsPDF\<lparr>rasterized := [sampleRoot]\<rparr>))))) = 3
   \<and> \<lceil>(1000::real) / (5864062014805333 / 2 ^ 44)\<rceil> = 4"
proof -
  have h: "height sampleImage = Num 1000"
    by (simp add: sampleImage_def)
  have r: "rasterOK sampleRaster NotElement"
    by (rule sample_rasterOK)
  have err: "outputWithFixedSize defaultBaseX defaultBaseY (height sampleImage)
           (addImage sampleImage)
           (addHeader sampleRaster defaultBaseX (Num 550) NotElement True)
           (addFooter sampleRaster defaultBaseX (Num 550) NotElement True)
           (fl (1 / 10 ^ 7)) (new_jsPDF\<lparr>rasterized := [sampleRoot]\<rparr>)
       = (Inl RangeError, new_jsPDF\<lparr>rasterized := [sampleRoot]\<rparr>)"
    unfolding h outputWithFixedSize_def tiny_pageNum by simp
  have three: "length (pagesOf (calls (snd
        (outputWithFixedSize defaultBaseX defaultBaseY (height sampleImage) (addImage sampleImage)
           (addHeader sampleRaster defaultBaseX (Num 550) NotElement True)
           (addFooter sampleRaster defaultBaseX (Num 550) NotElement True)
           (fl 333.3333333333333) (new_jsPDF\<lparr>rasterized := [sampleRoot]\<rparr>))))) = 3"
    unfolding h by (rule fixed_length[OF r r third_pageNum]) simp
  have p1: "(0::real) < 7555786372591432 / 2 ^ 76" and p2: "(0::real) < 5864062014805333 / 2 ^ 44"
    by simp_all
  show ?thesis
    using h tiny_contentHeight p1 err third_contentHeight p2 three third_exact
    by (intro conjI)
qed

section \<open>The claims about the orchestrator and the stamps\<close>

text \<open>
  C8. When the \<open>element\<close> option is not an \<open>HTMLElement\<close>, \<open>outputPdf\<close> fails with
  the input-validation error before anything else happens: \<open>html2canvas\<close> is never
  called, no jsPDF primitive is called, and nothing is saved or returned.
\<close>

theorem invalid_root_fails_first:
  assumes "param_element param = NotElement"
  shows "outputPdf html2canvas param
           = (Inl (Error ''The root element must be HTMLElement.''), new_jsPDF)
         \<and> rasterized (snd (outputPdf html2canvas param)) = []
         \<and> calls (snd (outputPdf html2canvas param)) = []"
  using assms by (simp add: outputPdf_def Let_def new_jsPDF_def)

theorem invalid_root_fails_first_witness:
  "param_element (sampleParam NotElement (HTMLElement sampleHeader) NotElement) = NotElement
   \<and> fst (outputPdf sampleRaster (sampleParam NotElement (HTMLElement sampleHeader) NotElement))
       = Inl (Error ''The root element must be HTMLElement.'')
   \<and> rasterized (snd (outputPdf sampleRaster
         (sampleParam NotElement (HTMLElement sampleHeader) NotElement))) = []
   \<and> calls (snd (outputPdf sampleRaster
         (sampleParam NotElement (HTMLElement sampleHeader) NotElement))) = []"
proof -
  have ne: "param_element (sampleParam NotElement (HTMLElement sampleHeader) NotElement) = NotElement"
    by (simp add: sampleParam_def)
  show ?thesis
    using invalid_root_fails_first[OF ne, of sampleRaster] ne by (simp add: new_jsPDF_def)
qed

text \<open>
  C9. In one call of \<open>outputPdf\<close> that produces at least one page, \<open>html2canvas\<close> is
  called exactly once for the root, once for the header if it is an element and once for
  the footer if it is an element, however many pages are stamped: the first stamp stores
  its bitmap in \<open>__header\<close> (\<open>__footer\<close>), where it still is at the end of the call,
  and every header (footer) stamp of the call draws that one bitmap. Adaptive mode always
  produces a page; fixed mode does when \<open>arr\<close> has a length \<open>n > 0\<close>.
\<close>

theorem rasterized_once:
  assumes "param_element param = HTMLElement element" and "html2canvas element = Inr c"
    and "rasterOK html2canvas (param_header param)"
    and "rasterOK html2canvas (param_footer param)"
    and "dflt ''adaptive'' (param_mode param) \<noteq> ''adaptive'' \<Longrightarrow>
           \<exists>n. pageNum (dflt (Num 550) (param_contentWidth param) / canvas_width c
                          * canvas_height c)
                  (dflt (Num 800) (param_contentHeight param)) = Inr n \<and> 0 < n"
  shows "\<exists>r p'. outputPdf html2canvas param = (Inr r, p')
     \<and> rasterized p' = [element] @ elems (param_header param) @ elems (param_footer param)
     \<and> cached_header p'
         = bandImage html2canvas (dflt (Num 550) (param_contentWidth param)) (param_header param)
     \<and> cached_footer p'
         = bandImage html2canvas (dflt (Num 550) (param_contentWidth param)) (param_footer param)
     \<and> set (stamps Header (calls p'))
         \<subseteq> (case cached_header p' of None \<Rightarrow> {} | Some i \<Rightarrow> {(data i, height i)})
     \<and> set (stamps Footer (calls p'))
         \<subseteq> (case cached_footer p' of None \<Rightarrow> {} | Some i \<Rightarrow> {(data i, height i)})"
proof -
  define cw where "cw = dflt (Num 550) (param_contentWidth param)"
  define ch where "ch = dflt (Num 800) (param_contentHeight param)"
  define bX where
    "bX = (case param_x param of None \<Rightarrow> (A4_WIDTH - cw) / Num 2 | Some x \<Rightarrow> x)"
  define bY where
    "bY = (case param_y param of None \<Rightarrow> (A4_HEIGHT - ch) / Num 2 | Some y \<Rightarrow> y)"
  define img where
    "img = \<lparr>width = cw, height = (cw / canvas_width c) * canvas_height c, data = toDataURL c\<rparr>"
  define yes where "yes =
     (if dflt ''adaptive'' (param_mode param) = ''adaptive''
      then adaptiveLayout bY
             (splitElement element cw ch (dflt ''item'' (param_itemName param))
                (dflt ''group'' (param_groupName param)))
      else fixedLayout bY ch (case pageNum (height img) ch of Inr n \<Rightarrow> n | Inl e \<Rightarrow> 0))"
  have a: "dflt ''adaptive'' (param_mode param) = ''adaptive'' \<Longrightarrow>
           yes = adaptiveLayout bY
                   (splitElement element cw ch (dflt ''item'' (param_itemName param))
                      (dflt ''group'' (param_groupName param)))"
    by (simp add: yes_def)
  have f: "\<exists>n. pageNum (height img) ch = Inr n \<and> 0 < n \<and> yes = fixedLayout bY ch n"
    if "dflt ''adaptive'' (param_mode param) \<noteq> ''adaptive''"
  proof -
    from assms(5)[OF that] obtain n where "pageNum (height img) ch = Inr n" and "0 < n"
      by (auto simp: img_def cw_def ch_def)
    then show ?thesis
      using that by (simp add: yes_def)
  qed
  from outputPdf_run[OF assms(1-4) cw_def ch_def bX_def bY_def img_def a f]
  obtain r where run: "outputPdf html2canvas param =
      (Inr r,
       \<lparr>calls = joinPages (pageList img bX bY cw (bandImage html2canvas cw (param_header param))
                  (dflt True (param_headerOnlyFirst param))
                  (bandImage html2canvas cw (param_footer param))
                  (dflt True (param_footerOnlyLast param)) yes 0)
                @ [outputCall (dflt ''save'' (param_outputType param))
                     (dflt ''document.pdf'' (param_filename param))],
        rasterized = [element] @ elems (param_header param) @ elems (param_footer param),
        cached_header = bandImage html2canvas cw (param_header param),
        cached_footer = bandImage html2canvas cw (param_footer param)\<rparr>)"
    by blast
  show ?thesis
    unfolding run cw_def[symmetric]
    by (simp add: stamps_append stamps_outputCall stamps_pageList)
qed

theorem rasterized_once_witness:
  "param_element repeatParam = HTMLElement sampleRoot
   \<and> sampleRaster sampleRoot =
       Inr \<lparr>canvas_width = Num 1100, canvas_height = Num 2000, toDataURL = ''data:image/jpeg''\<rparr>
   \<and> rasterOK sampleRaster (param_header repeatParam)
   \<and> rasterOK sampleRaster (param_footer repeatParam)
   \<and> dflt ''adaptive'' (param_mode repeatParam) = ''adaptive''
   \<and> rasterized (snd (outputPdf sampleRaster repeatParam))
       = [sampleRoot, sampleHeader, sampleFooter]
   \<and> cached_header (snd (outputPdf sampleRaster repeatParam))
       = Some \<lparr>width = Num 550, height = Num 20, data = ''data:image/jpeg''\<rparr>
   \<and> stamps Header (calls (snd (outputPdf sampleRaster repeatParam)))
       = [(''data:image/jpeg'', Num 20), (''data:image/jpeg'', Num 20)]
   \<and> stamps Footer (calls (snd (outputPdf sampleRaster repeatParam)))
       = [(''data:image/jpeg'', Num 15), (''data:image/jpeg'', Num 15)]
   \<and> param_element fixedParam = HTMLElement sampleRoot
   \<and> rasterOK sampleRaster (param_header fixedParam)
   \<and> rasterOK sampleRaster (param_footer fixedParam)
   \<and> dflt ''adaptive'' (param_mode fixedParam) \<noteq> ''adaptive''
   \<and> pageNum (dflt (Num 550) (param_contentWidth fixedParam) / Num 1100 * Num 2000)
         (dflt (Num 800) (param_contentHeight fixedParam)) = Inr 2
   \<and> rasterized (snd (outputPdf sampleRaster fixedParam))
       = [sampleRoot, sampleHeader, sampleFooter]
   \<and> cached_footer (snd (outputPdf sampleRaster fixedParam))
       = Some \<lparr>width = Num 550, height = Num 15, data = ''data:image/jpeg''\<rparr>"
proof -
  have el: "param_element repeatParam = HTMLElement sampleRoot"
    and h: "rasterOK sampleRaster (param_header repeatParam)"
    and f: "rasterOK sampleRaster (param_footer repeatParam)"
    and m: "dflt ''adaptive'' (param_mode repeatParam) = ''adaptive''"
    by (simp_all add: repeatParam_def sampleParam_def sample_rasterOK dflt_def)
  have hdr: "bandImage sampleRaster (dflt (Num 550) (param_contentWidth repeatParam))
               (param_header repeatParam)
             = Some \<lparr>width = Num 550, height = Num 20, data = ''data:image/jpeg''\<rparr>"
    by (simp add: repeatParam_def sampleParam_def dflt_def bandImage_def sampleRaster_def
        sampleHeader_def sample_bands)
  have "\<exists>r p'. outputPdf sampleRaster repeatParam = (Inr r, p')
     \<and> rasterized p' = [sampleRoot] @ elems (param_header repeatParam)
                         @ elems (param_footer repeatParam)
     \<and> cached_header p'
         = bandImage sampleRaster (dflt (Num 550) (param_contentWidth repeatParam))
             (param_header repeatParam)"
    using rasterized_once[OF el sample_root_canvas h f] m by blast
  then have "rasterized (snd (outputPdf sampleRaster repeatParam))
               = [sampleRoot, sampleHeader, sampleFooter]
             \<and> cached_header (snd (outputPdf sampleRaster repeatParam))
               = Some \<lparr>width = Num 550, height = Num 20, data = ''data:image/jpeg''\<rparr>"
    using hdr by (auto simp: repeatParam_def sampleParam_def elems_def)
  then have adaptive: "param_element repeatParam = HTMLElement sampleRoot
   \<and> sampleRaster sampleRoot =
       Inr \<lparr>canvas_width = Num 1100, canvas_height = Num 2000, toDataURL = ''data:image/jpeg''\<rparr>
   \<and> rasterOK sampleRaster (param_header repeatParam)
   \<and> rasterOK sampleRaster (param_footer repeatParam)
   \<and> dflt ''adaptive'' (param_mode repeatParam) = ''adaptive''
   \<and> rasterized (snd (outputPdf sampleRaster repeatParam))
       = [sampleRoot, sampleHeader, sampleFooter]
   \<and> cached_header (snd (outputPdf sampleRaster repeatParam))
       = Some \<lparr>width = Num 550, height = Num 20, data = ''data:image/jpeg''\<rparr>
   \<and> stamps Header (calls (snd (outputPdf sampleRaster repeatParam)))
       = [(''data:image/jpeg'', Num 20), (''data:image/jpeg'', Num 20)]
   \<and> stamps Footer (calls (snd (outputPdf sampleRaster repeatParam)))
       = [(''data:image/jpeg'', Num 15), (''data:image/jpeg'', Num 15)]"
    using el sample_root_canvas h f m by (simp add: repeat_calls)
  have el2: "param_element fixedParam = HTMLElement sampleRoot"
    and h2: "rasterOK sampleRaster (param_header fixedParam)"
    and f2: "rasterOK sampleRaster (param_footer fixedParam)"
    and m2: "dflt ''adaptive'' (param_mode fixedParam) \<noteq> ''adaptive''"
    by (simp_all add: fixedParam_def repeatParam_def sampleParam_def sample_rasterOK dflt_def)
  have pn: "pageNum (dflt (Num 550) (param_contentWidth fixedParam) / Num 1100 * Num 2000)
         (dflt (Num 800) (param_contentHeight fixedParam)) = Inr 2"
    using sample_pageNum
    by (simp add: fixedParam_def repeatParam_def sampleParam_def dflt_def sampleImage_def fl_eval)
  have ftr: "bandImage sampleRaster (dflt (Num 550) (param_contentWidth fixedParam))
               (param_footer fixedParam)
             = Some \<lparr>width = Num 550, height = Num 15, data = ''data:image/jpeg''\<rparr>"
    by (simp add: fixedParam_def repeatParam_def sampleParam_def dflt_def bandImage_def
        sampleRaster_def sampleFooter_def sample_bands)
  have hyp: "\<exists>n. pageNum (dflt (Num 550) (param_contentWidth fixedParam)
                          / canvas_width \<lparr>canvas_width = Num 1100, canvas_height = Num 2000,
                                             toDataURL = ''data:image/jpeg''\<rparr>
                          * canvas_height \<lparr>canvas_width = Num 1100, canvas_height = Num 2000,
                                              toDataURL = ''data:image/jpeg''\<rparr>)
                  (dflt (Num 800) (param_contentHeight fixedParam)) = Inr n \<and> 0 < n"
    using pn by (intro exI[of _ 2]) (simp del: divide_jsnum.simps times_jsnum.simps)
  have "\<exists>r p'. outputPdf sampleRaster fixedParam = (Inr r, p')
     \<and> rasterized p' = [sampleRoot] @ elems (param_header fixedParam)
                         @ elems (param_footer fixedParam)
     \<and> cached_footer p'
         = bandImage sampleRaster (dflt (Num 550) (param_contentWidth fixedParam))
             (param_footer fixedParam)"
    using rasterized_once[OF el2 sample_root_canvas h2 f2 hyp] by blast
  then have fixed: "rasterized (snd (outputPdf sampleRaster fixedParam))
               = [sampleRoot, sampleHeader, sampleFooter]
             \<and> cached_footer (snd (outputPdf sampleRaster fixedParam))
               = Some \<lparr>width = Num 550, height = Num 15, data = ''data:image/jpeg''\<rparr>"
    using ftr by (auto simp: fixedParam_def repeatParam_def sampleParam_def elems_def)
  show ?thesis
    using adaptive el2 h2 f2 m2 pn fixed by (simp only: simp_thms)
qed

text \<open>
  C10. When the header (the footer) is not an \<open>HTMLElement\<close>, stamping it is a silent
  no-op, whatever the page: \<open>pdf.addHeader\<close> (\<open>pdf.addFooter\<close>) and the closure around
  it return without an error and leave the jsPDF instance as it was: no call is made and
  the cached bitmaps are untouched.
\<close>

theorem not_element_stamp_noop:
  "pdf_addHeader html2canvas x w NotElement p = (Inr (), p)
   \<and> pdf_addFooter html2canvas x w NotElement p = (Inr (), p)
   \<and> addHeader html2canvas x w NotElement headerOnlyFirst isFirst p = (Inr (), p)
   \<and> addFooter html2canvas x w NotElement footerOnlyLast isLast p = (Inr (), p)"
  by (simp add: pdf_addHeader_def pdf_addFooter_def addHeader_def addFooter_def)

end
